theory Spec2Isabelle
  imports Main "HOL-Library.Word" "HOL-Library.Char_ord"
begin

section \<open>The ursparse transfer format: data model\<close>

text \<open>
  The program converts between a sparse file and the ursparse transfer format,
  a sequence of records \<open>offset length\<close>, newline, then \<open>length\<close> raw bytes.
  The embedding follows \<^verbatim>\<open>ursparseness.c\<close> function by function.

  \<^verbatim>\<open>off_t\<close> and \<^verbatim>\<open>size_t\<close> are 64-bit. The header fields are kept as 64-bit
  words: multiplication and addition wrap, the mixed \<^verbatim>\<open>off_t\<close>/\<^verbatim>\<open>size_t\<close>
  comparisons of the source are unsigned (read with \<open>unat\<close>), and \<open>sint\<close> gives
  the signed reading where the value is used as a file offset.
  Buffers \<^verbatim>\<open>(buff, sz)\<close> are byte lists, \<^verbatim>\<open>sz\<close> being the length; the
  pointer arguments are never null at any call site, so the null checks have no
  branch here. Return codes are \<open>int\<close>. A buffer of the decoder is at most one
  block, and the block size of \<^verbatim>\<open>main\<close> is an \<^verbatim>\<open>int\<close>, so the counts that the
  parsers return as \<^verbatim>\<open>int\<close> fit and are returned as they are.
\<close>

type_synonym off_t = "64 word"

text \<open>The field \<^verbatim>\<open>size\<close> of \<^verbatim>\<open>struct ursparse\<close>, the bytes of the segment still to come,
  is \<open>size_rem\<close> here: \<open>size\<close> is a constant of HOL.\<close>

record ursparse =
  offset :: off_t
  size_rem :: off_t

datatype ursparse_state =
  PARSE_ERROR | PARSE_START | PARSE_OFFSET | PARSE_SIZE | PARSE_NEWLINE | PARSE_MEAT

record ursparse_state_data =
  ursparse :: ursparse
  state :: ursparse_state

text \<open>\<^verbatim>\<open>memset(data, 0, sizeof(*data))\<close>: both fields zero, state \<^verbatim>\<open>PARSE_START = 0\<close>.\<close>

definition zero_data :: ursparse_state_data where
  "zero_data = \<lparr>ursparse = \<lparr>offset = 0, size_rem = 0\<rparr>, state = PARSE_START\<rparr>"

section \<open>Primitive parsers\<close>

text \<open>The loop of lines 56-57: skip spaces and newlines; the argument list is the
  buffer from index \<open>i\<close> on.\<close>

fun parse_uint_skip :: "string \<Rightarrow> nat \<Rightarrow> nat" where
  "parse_uint_skip [] i = i"
| "parse_uint_skip (c # cs) i =
     (if \<not> (c = CHR '' '' \<or> c = CHR 0x0A) then i else parse_uint_skip cs (Suc i))"

text \<open>The loop of lines 60-76. Results are \<open>(return value, *out_sz, *out_n)\<close>; on the
  error return \<^verbatim>\<open>*out_sz\<close> keeps the value it had.\<close>

fun parse_uint_loop :: "string \<Rightarrow> nat \<Rightarrow> nat \<Rightarrow> off_t \<Rightarrow> int \<times> nat \<times> off_t" where
  "parse_uint_loop [] i out_sz out_n = (int i, i, out_n)"
| "parse_uint_loop (c # cs) i out_sz out_n =
     (if CHR ''0'' \<le> c \<and> c \<le> CHR ''9''
      then parse_uint_loop cs (Suc i) out_sz
             (out_n * 10 + of_nat (of_char c - of_char CHR ''0''))
      else if c = CHR '' '' \<or> c = CHR 0x0A then (0, i, out_n)
      else (- 1, out_sz, out_n))"

definition parse_uint :: "string \<Rightarrow> nat \<Rightarrow> off_t \<Rightarrow> int \<times> nat \<times> off_t" where
  "parse_uint buff out_sz out_n =
     (if buff = [] then (- 2, out_sz, out_n)
      else let i = (if out_n = 0 then parse_uint_skip buff 0 else 0)
           in parse_uint_loop (drop i buff) i out_sz out_n)"

text \<open>\<^verbatim>\<open>parse_newline\<close>: the loop of lines 105-106, then the loop of lines 108-116,
  whose body returns in its first iteration. Results are \<open>(return value, *out_sz)\<close>.\<close>

fun parse_newline_skip :: "string \<Rightarrow> nat \<Rightarrow> nat" where
  "parse_newline_skip [] i = i"
| "parse_newline_skip (c # cs) i =
     (if c \<noteq> CHR '' '' then i else parse_newline_skip cs (Suc i))"

fun parse_newline_loop :: "string \<Rightarrow> nat \<Rightarrow> nat \<Rightarrow> int \<times> nat" where
  "parse_newline_loop [] i out_sz = (int i, i)"
| "parse_newline_loop (c # cs) i out_sz =
     (if c = CHR 0x0A then (0, i + 1) else (- 1, out_sz))"

definition parse_newline :: "string \<Rightarrow> nat \<Rightarrow> int \<times> nat" where
  "parse_newline buff out_sz =
     (if buff = [] then (- 2, out_sz)
      else let i = parse_newline_skip buff 0
           in parse_newline_loop (drop i buff) i out_sz)"

section \<open>The output descriptor\<close>

text \<open>
  File descriptor 1, as \<^verbatim>\<open>write\<close> and \<^verbatim>\<open>lseek\<close> see it: whether it can seek, its
  file offset, and its bytes (\<open>None\<close> is a byte of a hole, never written).
  \<open>snk_script\<close> lists the outcomes of the coming \<^verbatim>\<open>write\<close> calls that do not
  take everything: a failure, or a bound on the bytes accepted. Once the script is
  used up every \<^verbatim>\<open>write\<close> takes all it is given.
\<close>

datatype write_outcome = WriteError | Accept nat

record sink =
  snk_seekable :: bool
  snk_pos :: nat
  snk_file :: "char option list"
  snk_script :: "write_outcome list"

definition sink_put :: "sink \<Rightarrow> string \<Rightarrow> sink" where
  "sink_put s bs =
     (if bs = [] then s
      else s\<lparr>snk_file := take (snk_pos s) (snk_file s)
                           @ replicate (snk_pos s - length (snk_file s)) None
                           @ map Some bs
                           @ drop (snk_pos s + length bs) (snk_file s),
             snk_pos := snk_pos s + length bs\<rparr>)"

text \<open>\<^verbatim>\<open>write(1, buff, sz)\<close>: the return value and the descriptor afterwards.\<close>

definition sys_write :: "sink \<Rightarrow> string \<Rightarrow> int \<times> sink" where
  "sys_write s buff =
     (case snk_script s of
        [] \<Rightarrow> (int (length buff), sink_put s buff)
      | WriteError # rest \<Rightarrow> (- 1, s\<lparr>snk_script := rest\<rparr>)
      | Accept n # rest \<Rightarrow>
          (int (min n (length buff)), sink_put (s\<lparr>snk_script := rest\<rparr>) (take n buff)))"

text \<open>\<^verbatim>\<open>lseek(1, offset, SEEK_SET)\<close>: fails on a descriptor that cannot seek and on a
  negative offset.\<close>

definition sys_lseek_set :: "sink \<Rightarrow> off_t \<Rightarrow> int \<times> sink" where
  "sys_lseek_set s off =
     (if \<not> snk_seekable s \<or> sint off < 0 then (- 1, s)
      else (sint off, s\<lparr>snk_pos := unat off\<rparr>))"

section \<open>Writing payload and holes\<close>

text \<open>The \<^verbatim>\<open>while (sz > 0)\<close> loop of \<^verbatim>\<open>do_meat\<close>; results are
  \<open>(return value, *out_sz, descriptor)\<close>.\<close>

function do_meat_loop :: "sink \<Rightarrow> string \<Rightarrow> nat \<Rightarrow> int \<times> nat \<times> sink" where
  "do_meat_loop s buff written_bytes =
     (if buff = [] then (int written_bytes, written_bytes, s)
      else case sys_write s buff of
             (r, s') \<Rightarrow>
               if r = - 1 then (- 4, written_bytes, s')
               else do_meat_loop s' (drop (nat r) buff) (written_bytes + nat r))"
  by pat_completeness auto
termination
  by (relation "measure (\<lambda>(s, buff, w). length (snk_script s) + length buff)")
     (auto simp: sys_write_def sink_put_def split: list.splits write_outcome.splits if_splits)

declare do_meat_loop.simps [simp del]

definition do_meat :: "sink \<Rightarrow> string \<Rightarrow> nat \<Rightarrow> int \<times> nat \<times> sink" where
  "do_meat s buff out_sz =
     (if buff = [] then (- 2, out_sz, s) else do_meat_loop s buff 0)"

definition do_hole :: "sink \<Rightarrow> off_t \<Rightarrow> int \<times> sink" where
  "do_hole s off =
     (case sys_lseek_set s off of (r, s') \<Rightarrow> if r = - 1 then (- 1, s') else (0, s'))"

section \<open>The decoder state machine\<close>

text \<open>
  \<^verbatim>\<open>parse_ursparse\<close> is a \<^verbatim>\<open>switch\<close> whose cases fall through. Each case label is
  a function here, taking the rest of the buffer, \<^verbatim>\<open>extra_sz\<close> and \<^verbatim>\<open>*out_sz\<close>,
  and ending in the next label. Results are
  \<open>(return value, *out_sz, *data, descriptor)\<close>. The state has one of the six values
  of the enum, so the \<^verbatim>\<open>default\<close> label has no branch.
\<close>

definition case_PARSE_MEAT ::
  "string \<Rightarrow> nat \<Rightarrow> nat \<Rightarrow> ursparse_state_data \<Rightarrow> sink
     \<Rightarrow> int \<times> nat \<times> ursparse_state_data \<times> sink" where
  "case_PARSE_MEAT buff extra_sz out_sz data s =
     (let sz = length buff;
          remaining = unat (size_rem (ursparse data));
          n = (if sz > remaining then remaining else sz)
      in case do_meat s (take n buff) out_sz of
           (r, out_sz1, s1) \<Rightarrow>
             if r < 0 then (r, out_sz1, data\<lparr>state := PARSE_ERROR\<rparr>, s1)
             else if remaining < out_sz1 then (- 7, out_sz1, data\<lparr>state := PARSE_ERROR\<rparr>, s1)
             else let data1 = data\<lparr>ursparse :=
                                 (ursparse data)\<lparr>size_rem :=
                                     size_rem (ursparse data) - of_nat out_sz1\<rparr>\<rparr>;
                      out_sz2 = out_sz1 + extra_sz
                  in if size_rem (ursparse data1) = 0 then (0, out_sz2, zero_data, s1)
                     else (int out_sz2, out_sz2, data1, s1))"

definition case_PARSE_NEWLINE ::
  "string \<Rightarrow> nat \<Rightarrow> nat \<Rightarrow> ursparse_state_data \<Rightarrow> sink
     \<Rightarrow> int \<times> nat \<times> ursparse_state_data \<times> sink" where
  "case_PARSE_NEWLINE buff extra_sz out_sz data s =
     (case parse_newline buff out_sz of
        (r, out_sz1) \<Rightarrow>
          if r < 0 then (r, out_sz1, data\<lparr>state := PARSE_ERROR\<rparr>, s)
          else if r > 0 then (int out_sz1, out_sz1, data, s)
          else case do_hole s (offset (ursparse data)) of
                 (rh, s1) \<Rightarrow>
                   if rh < 0 then (- 8, out_sz1, data\<lparr>state := PARSE_ERROR\<rparr>, s1)
                   else case_PARSE_MEAT (drop out_sz1 buff) (extra_sz + out_sz1) out_sz1
                          (data\<lparr>state := PARSE_MEAT\<rparr>) s1)"

definition case_PARSE_SIZE ::
  "string \<Rightarrow> nat \<Rightarrow> nat \<Rightarrow> ursparse_state_data \<Rightarrow> sink
     \<Rightarrow> int \<times> nat \<times> ursparse_state_data \<times> sink" where
  "case_PARSE_SIZE buff extra_sz out_sz data s =
     (case parse_uint buff out_sz (size_rem (ursparse data)) of
        (r, out_sz1, n) \<Rightarrow>
          let data1 = data\<lparr>ursparse := (ursparse data)\<lparr>size_rem := n\<rparr>\<rparr>
          in if r < 0 then (r, out_sz1, data1\<lparr>state := PARSE_ERROR\<rparr>, s)
             else if r > 0 then (int out_sz1, out_sz1, data1, s)
             else case_PARSE_NEWLINE (drop out_sz1 buff) (extra_sz + out_sz1) out_sz1
                    (data1\<lparr>state := PARSE_NEWLINE\<rparr>) s)"

definition case_PARSE_OFFSET ::
  "string \<Rightarrow> nat \<Rightarrow> nat \<Rightarrow> ursparse_state_data \<Rightarrow> sink
     \<Rightarrow> int \<times> nat \<times> ursparse_state_data \<times> sink" where
  "case_PARSE_OFFSET buff extra_sz out_sz data s =
     (case parse_uint buff out_sz (offset (ursparse data)) of
        (r, out_sz1, n) \<Rightarrow>
          let data1 = data\<lparr>ursparse := (ursparse data)\<lparr>offset := n\<rparr>\<rparr>
          in if r < 0 then (r, out_sz1, data1\<lparr>state := PARSE_ERROR\<rparr>, s)
             else if r > 0 then (int out_sz1, out_sz1, data1, s)
             else case_PARSE_SIZE (drop out_sz1 buff) (extra_sz + out_sz1) out_sz1
                    (data1\<lparr>state := PARSE_SIZE\<rparr>) s)"

definition parse_ursparse ::
  "string \<Rightarrow> nat \<Rightarrow> ursparse_state_data \<Rightarrow> sink
     \<Rightarrow> int \<times> nat \<times> ursparse_state_data \<times> sink" where
  "parse_ursparse buff out_sz data s =
     (if buff = [] then (- 2, out_sz, data, s)
      else case state data of
             PARSE_START \<Rightarrow> case_PARSE_OFFSET buff 0 out_sz (data\<lparr>state := PARSE_OFFSET\<rparr>) s
           | PARSE_OFFSET \<Rightarrow> case_PARSE_OFFSET buff 0 out_sz data s
           | PARSE_SIZE \<Rightarrow> case_PARSE_SIZE buff 0 out_sz data s
           | PARSE_NEWLINE \<Rightarrow> case_PARSE_NEWLINE buff 0 out_sz data s
           | PARSE_MEAT \<Rightarrow> case_PARSE_MEAT buff 0 out_sz data s
           | PARSE_ERROR \<Rightarrow> (- 5, out_sz, data, s))"

text \<open>
  The header part of a call. \<open>payload_entry\<close> follows \<^verbatim>\<open>parse_ursparse\<close> through the
  header cases of its \<^verbatim>\<open>switch\<close> up to the label \<^verbatim>\<open>case PARSE_MEAT\<close> and gives what the
  call holds when it arrives there: the rest of the buffer, \<^verbatim>\<open>extra_sz\<close>, \<^verbatim>\<open>*out_sz\<close>,
  the decoder state, and the output after the seek of \<^verbatim>\<open>do_hole\<close>. It is \<open>None\<close> for
  a call that returns before: on an empty buffer, in the error state, when a header
  field fails or needs more input, or when the seek fails.
\<close>

definition payload_entry_NEWLINE ::
  "string \<Rightarrow> nat \<Rightarrow> nat \<Rightarrow> ursparse_state_data \<Rightarrow> sink
     \<Rightarrow> (string \<times> nat \<times> nat \<times> ursparse_state_data \<times> sink) option" where
  "payload_entry_NEWLINE buff extra_sz out_sz data s =
     (case parse_newline buff out_sz of
        (r, out_sz1) \<Rightarrow>
          if r < 0 \<or> r > 0 then None
          else case do_hole s (offset (ursparse data)) of
                 (rh, s1) \<Rightarrow>
                   if rh < 0 then None
                   else Some (drop out_sz1 buff, extra_sz + out_sz1, out_sz1,
                              data\<lparr>state := PARSE_MEAT\<rparr>, s1))"

definition payload_entry_SIZE ::
  "string \<Rightarrow> nat \<Rightarrow> nat \<Rightarrow> ursparse_state_data \<Rightarrow> sink
     \<Rightarrow> (string \<times> nat \<times> nat \<times> ursparse_state_data \<times> sink) option" where
  "payload_entry_SIZE buff extra_sz out_sz data s =
     (case parse_uint buff out_sz (size_rem (ursparse data)) of
        (r, out_sz1, n) \<Rightarrow>
          if r < 0 \<or> r > 0 then None
          else payload_entry_NEWLINE (drop out_sz1 buff) (extra_sz + out_sz1) out_sz1
                 (data\<lparr>ursparse := (ursparse data)\<lparr>size_rem := n\<rparr>, state := PARSE_NEWLINE\<rparr>) s)"

definition payload_entry_OFFSET ::
  "string \<Rightarrow> nat \<Rightarrow> nat \<Rightarrow> ursparse_state_data \<Rightarrow> sink
     \<Rightarrow> (string \<times> nat \<times> nat \<times> ursparse_state_data \<times> sink) option" where
  "payload_entry_OFFSET buff extra_sz out_sz data s =
     (case parse_uint buff out_sz (offset (ursparse data)) of
        (r, out_sz1, n) \<Rightarrow>
          if r < 0 \<or> r > 0 then None
          else payload_entry_SIZE (drop out_sz1 buff) (extra_sz + out_sz1) out_sz1
                 (data\<lparr>ursparse := (ursparse data)\<lparr>offset := n\<rparr>, state := PARSE_SIZE\<rparr>) s)"

definition payload_entry ::
  "string \<Rightarrow> nat \<Rightarrow> ursparse_state_data \<Rightarrow> sink
     \<Rightarrow> (string \<times> nat \<times> nat \<times> ursparse_state_data \<times> sink) option" where
  "payload_entry buff out_sz data s =
     (if buff = [] then None
      else case state data of
             PARSE_START \<Rightarrow> payload_entry_OFFSET buff 0 out_sz (data\<lparr>state := PARSE_OFFSET\<rparr>) s
           | PARSE_OFFSET \<Rightarrow> payload_entry_OFFSET buff 0 out_sz data s
           | PARSE_SIZE \<Rightarrow> payload_entry_SIZE buff 0 out_sz data s
           | PARSE_NEWLINE \<Rightarrow> payload_entry_NEWLINE buff 0 out_sz data s
           | PARSE_MEAT \<Rightarrow> Some (buff, 0, out_sz, data, s)
           | PARSE_ERROR \<Rightarrow> None)"

section \<open>Progress of the decoder\<close>

text \<open>A call that does not fail reports at least one byte consumed, so the cursor
  loop of \<^verbatim>\<open>do_ursparse\<close> ends.\<close>


lemma parse_uint_loop_more:
  "parse_uint_loop buff i out_sz n = (r, k, n') \<Longrightarrow> 0 < r \<Longrightarrow> k = i + length buff \<and> r = int k"
proof (induction buff arbitrary: i n)
  case Nil
  then show ?case by auto
next
  case (Cons c cs)
  show ?case
  proof (cases "CHR ''0'' \<le> c \<and> c \<le> CHR ''9''")
    case True
    with Cons.prems
    have "parse_uint_loop cs (Suc i) out_sz (n * 10 + of_nat (of_char c - of_char CHR ''0'')) = (r, k, n')"
      by simp
    from Cons.IH [OF this Cons.prems(2)] show ?thesis by simp
  next
    case False
    with Cons.prems show ?thesis by (auto split: if_splits)
  qed
qed

lemma parse_uint_more:
  "parse_uint buff out_sz n = (r, k, n') \<Longrightarrow> 0 < r \<Longrightarrow> int k = r"
  by (auto simp: parse_uint_def Let_def split: if_splits dest!: parse_uint_loop_more)

lemma parse_newline_more:
  "parse_newline buff out_sz = (r, k) \<Longrightarrow> 0 < r \<Longrightarrow> int k = r"
  by (cases "drop (parse_newline_skip buff 0) buff")
     (auto simp: parse_newline_def Let_def split: if_splits)

lemma do_meat_loop_written:
  "do_meat_loop s buff w = (r, k, s') \<Longrightarrow> 0 \<le> r \<Longrightarrow> k = w + length buff \<and> r = int k"
proof (induction s buff w rule: do_meat_loop.induct)
  case (1 s buff w)
  show ?case
  proof (cases "buff = []")
    case True
    with "1.prems" show ?thesis by (auto simp: do_meat_loop.simps [of s "[]" w])
  next
    case False
    obtain r1 s1 where w: "sys_write s buff = (r1, s1)" by (cases "sys_write s buff")
    have r1: "r1 = - 1 \<or> (0 \<le> r1 \<and> nat r1 \<le> length buff)"
      using w by (auto simp: sys_write_def split: list.splits write_outcome.splits)
    from "1.prems" False w have ne: "r1 \<noteq> - 1"
      by (auto simp: do_meat_loop.simps [of s buff w])
    with "1.prems" False w
    have rec: "do_meat_loop s1 (drop (nat r1) buff) (w + nat r1) = (r, k, s')"
      by (simp add: do_meat_loop.simps [of s buff w])
    from "1.IH" [OF False w [symmetric] ne rec "1.prems"(2)] r1 ne
    show ?thesis by auto
  qed
qed

lemma do_meat_written:
  "do_meat s buff out_sz = (r, k, s') \<Longrightarrow> 0 \<le> r \<Longrightarrow> k = length buff \<and> 0 < k \<and> r = int k"
  by (auto simp: do_meat_def split: if_splits dest!: do_meat_loop_written)

lemma case_PARSE_MEAT_progress:
  "case_PARSE_MEAT buff extra_sz out_sz data s = (r, k, data', s') \<Longrightarrow> 0 \<le> r \<Longrightarrow> 0 < k"
  by (auto simp: case_PARSE_MEAT_def Let_def split: prod.splits if_splits dest!: do_meat_written)

lemma case_PARSE_NEWLINE_progress:
  "case_PARSE_NEWLINE buff extra_sz out_sz data s = (r, k, data', s') \<Longrightarrow> 0 \<le> r \<Longrightarrow> 0 < k"
  by (auto simp: case_PARSE_NEWLINE_def split: prod.splits if_splits
           dest: parse_newline_more case_PARSE_MEAT_progress)

lemma case_PARSE_SIZE_progress:
  "case_PARSE_SIZE buff extra_sz out_sz data s = (r, k, data', s') \<Longrightarrow> 0 \<le> r \<Longrightarrow> 0 < k"
  by (auto simp: case_PARSE_SIZE_def Let_def split: prod.splits if_splits
           dest: parse_uint_more case_PARSE_NEWLINE_progress)

lemma case_PARSE_OFFSET_progress:
  "case_PARSE_OFFSET buff extra_sz out_sz data s = (r, k, data', s') \<Longrightarrow> 0 \<le> r \<Longrightarrow> 0 < k"
  by (auto simp: case_PARSE_OFFSET_def Let_def split: prod.splits if_splits
           dest: parse_uint_more case_PARSE_SIZE_progress)

lemma parse_ursparse_progress:
  "parse_ursparse buff out_sz data s = (r, k, data', s') \<Longrightarrow> 0 \<le> r \<Longrightarrow> 0 < k"
  by (auto simp: parse_ursparse_def split: if_splits ursparse_state.splits
           dest: case_PARSE_OFFSET_progress case_PARSE_SIZE_progress
                 case_PARSE_NEWLINE_progress case_PARSE_MEAT_progress)

section \<open>The decode run\<close>

text \<open>
  The input descriptor: whether it can seek, its file offset and its bytes.
  \<open>src_script\<close> lists the outcomes of the coming \<^verbatim>\<open>read\<close> calls that are not
  full reads: a failure, or a short read of at most \<open>Suc k\<close> bytes. Once the script is
  used up, \<^verbatim>\<open>read\<close> returns the next \<^verbatim>\<open>blk_sz\<close> bytes, fewer at the end of the
  file, none after it.
\<close>

datatype read_outcome = ReadError | ReadShort nat

record source =
  src_seekable :: bool
  src_pos :: nat
  src_file :: string
  src_script :: "read_outcome list"

text \<open>\<^verbatim>\<open>read(fd_in, read_buff, blk_sz)\<close>: the return value, the bytes put in the buffer,
  the descriptor afterwards.\<close>

definition sys_read :: "source \<Rightarrow> nat \<Rightarrow> int \<times> string \<times> source" where
  "sys_read src blk_sz =
     (case src_script src of
        [] \<Rightarrow>
          (let b = take blk_sz (drop (src_pos src) (src_file src))
           in (int (length b), b, src\<lparr>src_pos := src_pos src + length b\<rparr>))
      | ReadError # rest \<Rightarrow> (- 1, [], src\<lparr>src_script := rest\<rparr>)
      | ReadShort k # rest \<Rightarrow>
          (let b = take (min blk_sz (Suc k)) (drop (src_pos src) (src_file src))
           in (int (length b), b,
               src\<lparr>src_pos := src_pos src + length b, src_script := rest\<rparr>)))"

text \<open>The \<^verbatim>\<open>for (cursor = 0; cursor < nbytes; )\<close> loop over one block. The first
  component is the value returned from inside the loop, if any.\<close>

function do_ursparse_block ::
  "string \<Rightarrow> nat \<Rightarrow> ursparse_state_data \<Rightarrow> sink \<Rightarrow> int option \<times> ursparse_state_data \<times> sink" where
  "do_ursparse_block read_buff cursor data s =
     (if cursor < length read_buff
      then case parse_ursparse (drop cursor read_buff) 0 data s of
             (r, out_sz, data', s') \<Rightarrow>
               if r < 0 then (Some 4, data', s')
               else do_ursparse_block read_buff (cursor + out_sz) data' s'
      else (None, data, s))"
  by pat_completeness auto
termination
  apply (relation "measure (\<lambda>(read_buff, cursor, data, s). length read_buff - cursor)")
   apply simp
  apply (auto dest!: parse_ursparse_progress [OF sym])
  done

declare do_ursparse_block.simps [simp del]

text \<open>The \<^verbatim>\<open>while (1)\<close> loop: results are
  \<open>(return value, input descriptor, decoder state, output descriptor)\<close>.\<close>

function do_ursparse_loop ::
  "source \<Rightarrow> nat \<Rightarrow> ursparse_state_data \<Rightarrow> sink
     \<Rightarrow> int \<times> source \<times> ursparse_state_data \<times> sink" where
  "do_ursparse_loop src blk_sz data s =
     (case sys_read src blk_sz of
        (nbytes, read_buff, src') \<Rightarrow>
          if nbytes = - 1 then (3, src', data, s)
          else if nbytes = 0 then (0, src', data, s)
          else case do_ursparse_block read_buff 0 data s of
                 (Some rc, data', s') \<Rightarrow> (rc, src', data', s')
               | (None, data', s') \<Rightarrow> do_ursparse_loop src' blk_sz data' s')"
  by pat_completeness auto
termination
  by (relation "measure (\<lambda>(src, blk_sz, data, s).
          length (src_script src) + (length (src_file src) - src_pos src))")
     (auto simp: sys_read_def Let_def split: list.splits read_outcome.splits if_splits)

declare do_ursparse_loop.simps [simp del]

text \<open>\<^verbatim>\<open>do_ursparse\<close>; \<open>malloc_ok\<close> says whether \<^verbatim>\<open>malloc(blk_sz)\<close> succeeds. The
  result is the return value with both descriptors as the run leaves them. The
  output is descriptor 1, which \<^verbatim>\<open>do_meat\<close> and \<^verbatim>\<open>do_hole\<close> write to; the argument
  \<^verbatim>\<open>fd_out\<close> is not used by the code.\<close>

definition do_ursparse :: "source \<Rightarrow> sink \<Rightarrow> nat \<Rightarrow> bool \<Rightarrow> int \<times> source \<times> sink" where
  "do_ursparse src s blk_sz malloc_ok =
     (if \<not> src_seekable src then (1, src, s)
      else let src0 = src\<lparr>src_pos := 0\<rparr>
           in if \<not> malloc_ok then (2, src0, s)
              else case do_ursparse_loop src0 blk_sz zero_data s of
                     (rc, src', data, s') \<Rightarrow> (rc, src', s'))"

section \<open>The sparse input\<close>

text \<open>
  The input descriptor of the encoder, as \<^verbatim>\<open>lseek\<close> and \<^verbatim>\<open>copy_file_range\<close> see it.
  \<open>sps_seek_data\<close> and \<open>sps_seek_hole\<close> are the answers to
  \<^verbatim>\<open>lseek(fd_in, pos, SEEK_DATA)\<close> and \<^verbatim>\<open>lseek(fd_in, pos, SEEK_HOLE)\<close>: a position, or
  a failure with its \<^verbatim>\<open>errno\<close> (\<^verbatim>\<open>ENXIO\<close>, or any other). \<open>sps_file\<close> holds the bytes
  of the file, a hole reading as zero bytes. \<open>sps_copy_script\<close> lists the outcomes
  of the coming \<^verbatim>\<open>copy_file_range\<close> calls that are not complete: a failure, or a
  short copy of at most \<open>n\<close> bytes, which the call is allowed to make. Once the script
  is used up a call copies all the bytes asked for that the file has.
\<close>

datatype errno = ENXIO | EOTHER

datatype copy_outcome = CopyError | CopyShort nat

record sparse_source =
  sps_seekable :: bool
  sps_seek_data :: "nat \<Rightarrow> errno + nat"
  sps_seek_hole :: "nat \<Rightarrow> errno + nat"
  sps_file :: string
  sps_copy_script :: "copy_outcome list"

text \<open>\<^verbatim>\<open>copy_file_range(fd_in, &start, fd_out, 0, sz, 0)\<close>: the bytes go to the output
  at its file offset; the return value is their number.\<close>

definition sys_copy_file_range ::
  "sparse_source \<Rightarrow> sink \<Rightarrow> int \<Rightarrow> nat \<Rightarrow> int \<times> sparse_source \<times> sink" where
  "sys_copy_file_range src s start sz =
     (case sps_copy_script src of
        [] \<Rightarrow>
          (let b = take sz (drop (nat start) (sps_file src))
           in (int (length b), src, sink_put s b))
      | CopyError # rest \<Rightarrow> (- 1, src\<lparr>sps_copy_script := rest\<rparr>, s)
      | CopyShort n # rest \<Rightarrow>
          (let b = take (min n sz) (drop (nat start) (sps_file src))
           in (int (length b), src\<lparr>sps_copy_script := rest\<rparr>, sink_put s b)))"

text \<open>The conversion of a \<^verbatim>\<open>ssize_t\<close> to the \<^verbatim>\<open>int\<close> that
  \<^verbatim>\<open>do_sparse_copy_data\<close> returns keeps the low 32 bits, read as signed.\<close>

definition int_of_ssize :: "int \<Rightarrow> int" where
  "int_of_ssize r = (r + 2 ^ 31) mod 2 ^ 32 - 2 ^ 31"

text \<open>\<^verbatim>\<open>%ld\<close>: a signed decimal.\<close>

fun dec_nat :: "nat \<Rightarrow> string" where
  "dec_nat n =
     (if n < 10 then [''0123456789'' ! n]
      else dec_nat (n div 10) @ [''0123456789'' ! (n mod 10)])"

declare dec_nat.simps [simp del]

definition dec_ld :: "int \<Rightarrow> string" where
  "dec_ld i = (if i < 0 then CHR ''-'' # dec_nat (nat (- i)) else dec_nat (nat i))"

text \<open>\<^verbatim>\<open>dprintf(fd_out, ...)\<close> writes the formatted text with \<^verbatim>\<open>write\<close> calls until
  all of it is out or one fails, the loop \<open>do_meat_loop\<close> makes as well; it returns
  the number of bytes, or a negative value.\<close>

definition sys_dprintf :: "sink \<Rightarrow> string \<Rightarrow> int \<times> sink" where
  "sys_dprintf s text =
     (case do_meat_loop s text 0 of
        (r, n, s') \<Rightarrow> if r < 0 then (- 1, s') else (int (length text), s'))"

section \<open>The encoder\<close>

text \<open>
  \<^verbatim>\<open>blk_sz\<close> and \<^verbatim>\<open>hole_byte\<close> are handed down by \<^verbatim>\<open>do_sparse\<close> and never used; they
  are left out. Results are \<open>(return value, input descriptor, output descriptor)\<close>.
\<close>

definition do_sparse_copy_data ::
  "sparse_source \<Rightarrow> sink \<Rightarrow> int \<Rightarrow> nat \<Rightarrow> int \<times> sparse_source \<times> sink" where
  "do_sparse_copy_data src s start sz =
     (case sys_copy_file_range src s start sz of
        (r, src', s') \<Rightarrow> if r = - 1 then (- 1, src', s') else (int_of_ssize r, src', s'))"

text \<open>\<^verbatim>\<open>do_sparse_data\<close> gets \<^verbatim>\<open>end - start\<close>, an \<^verbatim>\<open>off_t\<close>, as its \<^verbatim>\<open>size_t sz\<close>:
  \<^verbatim>\<open>%ld\<close> prints the signed value, the copy takes it modulo \<open>2 ^ 64\<close>.\<close>

definition do_sparse_data ::
  "sparse_source \<Rightarrow> sink \<Rightarrow> int \<Rightarrow> int \<Rightarrow> int \<times> sparse_source \<times> sink" where
  "do_sparse_data src s start sz =
     (case sys_dprintf s (dec_ld start @ '' '' @ dec_ld sz @ [CHR 0x0A]) of
        (n, s1) \<Rightarrow>
          if 4 > n then (- 1, src, s1)
          else case do_sparse_copy_data src s1 start (nat (sz mod 2 ^ 64)) of
                 (r, src', s2) \<Rightarrow> if - 1 = r then (- 1, src', s2) else (0, src', s2))"


text \<open>
  The \<^verbatim>\<open>while (1)\<close> loop of \<^verbatim>\<open>do_sparse\<close>. It leaves either by a \<^verbatim>\<open>return\<close> or by a
  \<^verbatim>\<open>break\<close>, and then the values of \<^verbatim>\<open>start\<close> and \<^verbatim>\<open>end\<close> matter to the code after
  it. Nothing in the code bounds the number of rounds for arbitrary \<^verbatim>\<open>lseek\<close> answers,
  so the result is optional: \<open>None\<close> is a run that does not end.
\<close>

datatype loop_exit = Returned int | Broke int int

partial_function (option) do_sparse_loop ::
  "sparse_source \<Rightarrow> sink \<Rightarrow> int \<Rightarrow> int \<Rightarrow> (loop_exit \<times> sparse_source \<times> sink) option" where
  "do_sparse_loop src s start end_off =
     (case sps_seek_data src (nat start) of
        Inl errno \<Rightarrow>
          if errno = ENXIO then Some (Broke (- 1) end_off, src, s)
          else Some (Returned 1, src, s)
      | Inr start1 \<Rightarrow>
          (case sps_seek_hole src start1 of
             Inl errno \<Rightarrow>
               if errno = ENXIO then Some (Broke (int start1) (- 1), src, s)
               else Some (Returned 1, src, s)
           | Inr end1 \<Rightarrow>
               (case do_sparse_data src s (int start1) (int end1 - int start1) of
                  (r, src', s') \<Rightarrow>
                    if r \<noteq> 0 then Some (Returned 2, src', s')
                    else do_sparse_loop src' s' (int end1) (int end1))))"

declare do_sparse_loop.simps [code]

definition do_sparse :: "sparse_source \<Rightarrow> sink \<Rightarrow> (int \<times> sink) option" where
  "do_sparse src s =
     (if \<not> sps_seekable src then Some (1, s)
      else case do_sparse_loop src s 0 0 of
             None \<Rightarrow> None
           | Some (Returned rc, src', s') \<Rightarrow> Some (rc, s')
           | Some (Broke start end_off, src', s') \<Rightarrow>
               if start \<noteq> - 1 \<and> end_off \<noteq> - 1
               then (case do_sparse_data src' s' start (end_off - start) of
                       (r, src'', s'') \<Rightarrow> if r \<noteq> 0 then Some (3, s'') else Some (0, s''))
               else Some (0, s'))"

text \<open>
  A sparse file of Linux, given by its bytes (\<open>None\<close> in a hole): \<^verbatim>\<open>SEEK_DATA\<close>
  answers with the next position that holds data and fails with \<^verbatim>\<open>ENXIO\<close> when there
  is none or the position is at or after the end; \<^verbatim>\<open>SEEK_HOLE\<close> answers with the next
  position in a hole, the end of the file counting as one, and fails with
  \<^verbatim>\<open>ENXIO\<close> at or after the end.
\<close>

fun next_data :: "char option list \<Rightarrow> nat \<Rightarrow> nat option" where
  "next_data [] i = None"
| "next_data (b # bs) i = (if b \<noteq> None then Some i else next_data bs (Suc i))"

fun next_hole :: "char option list \<Rightarrow> nat \<Rightarrow> nat" where
  "next_hole [] i = i"
| "next_hole (b # bs) i = (if b = None then i else next_hole bs (Suc i))"

definition sparse_file :: "char option list \<Rightarrow> sparse_source" where
  "sparse_file f =
     \<lparr>sps_seekable = True,
      sps_seek_data = (\<lambda>pos. if length f \<le> pos then Inl ENXIO
                              else case next_data (drop pos f) pos of
                                     None \<Rightarrow> Inl ENXIO | Some i \<Rightarrow> Inr i),
      sps_seek_hole = (\<lambda>pos. if length f \<le> pos then Inl ENXIO
                              else Inr (next_hole (drop pos f) pos)),
      sps_file = map (\<lambda>b. case b of None \<Rightarrow> CHR 0x00 | Some c \<Rightarrow> c) f,
      sps_copy_script = []\<rparr>"

section \<open>Header lines\<close>

text \<open>
  The bytes a header is made of, as the parsers tell them apart: the numerals of
  lines 61-66, the blanks (space or newline) of lines 57 and 68. \<open>digits_value n ds\<close>
  is what lines 63-64 leave in \<^verbatim>\<open>*out_n\<close> after the numerals \<open>ds\<close>, starting from \<open>n\<close>.
\<close>

definition is_numeral :: "char \<Rightarrow> bool" where
  "is_numeral c = (CHR ''0'' \<le> c \<and> c \<le> CHR ''9'')"

definition is_blank :: "char \<Rightarrow> bool" where
  "is_blank c = (c = CHR '' '' \<or> c = CHR 0x0A)"

fun digits_value :: "off_t \<Rightarrow> string \<Rightarrow> off_t" where
  "digits_value n [] = n"
| "digits_value n (c # cs) = digits_value (n * 10 + of_nat (of_char c - of_char CHR ''0'')) cs"

text \<open>
  A header line as the file comment describes it (\<^verbatim>\<open>offset length\n\<close>, blanks
  ignored): optional blanks, the offset numerals, at least one blank, the length
  numerals, optional spaces, the newline.
\<close>

definition header_line :: "string \<Rightarrow> string \<Rightarrow> string \<Rightarrow> string \<Rightarrow> string \<Rightarrow> string" where
  "header_line ws ds bs ls sp = ws @ ds @ bs @ ls @ sp @ [CHR 0x0A]"

definition header_fields :: "string \<Rightarrow> string \<Rightarrow> string \<Rightarrow> string \<Rightarrow> string \<Rightarrow> bool" where
  "header_fields ws ds bs ls sp =
     (list_all is_blank ws \<and> list_all is_numeral ds \<and> ds \<noteq> [] \<and>
      list_all is_blank bs \<and> bs \<noteq> [] \<and> list_all is_numeral ls \<and> ls \<noteq> [] \<and>
      list_all (\<lambda>c. c = CHR '' '') sp)"

section \<open>Fixtures and unfolding rules\<close>

text \<open>A regular file opened for reading at offset 0, and an empty regular file opened
  for writing; neither has scripted short or failing calls.\<close>

definition regular_file :: "string \<Rightarrow> source" where
  "regular_file bytes = \<lparr>src_seekable = True, src_pos = 0, src_file = bytes, src_script = []\<rparr>"

definition empty_output :: sink where
  "empty_output = \<lparr>snk_seekable = True, snk_pos = 0, snk_file = [], snk_script = []\<rparr>"

lemmas decoder_defs =
  do_ursparse_def do_ursparse_loop.simps do_ursparse_block.simps sys_read_def
  parse_ursparse_def zero_data_def case_PARSE_OFFSET_def case_PARSE_SIZE_def
  case_PARSE_NEWLINE_def case_PARSE_MEAT_def parse_uint_def parse_newline_def
  do_hole_def do_meat_def do_meat_loop.simps sys_lseek_set_def sys_write_def sink_put_def
  regular_file_def empty_output_def Let_def

lemmas encoder_defs =
  do_sparse_def do_sparse_loop.simps do_sparse_data_def do_sparse_copy_data_def
  sys_dprintf_def sys_copy_file_range_def
  int_of_ssize_def dec_ld_def dec_nat.simps sparse_file_def
  do_meat_loop.simps sys_write_def sink_put_def empty_output_def Let_def

section \<open>The worked example of the specification\<close>

text \<open>
  Claim C8. The input \<open>10 5\<close>, newline, \<open>ABCDE\<close>, read as one block, decodes with
  return value 0: the output is sought to offset 10 and the five bytes are written
  there, so the destination has 15 bytes, the first ten a hole and the rest
  \<open>ABCDE\<close>. All ten input bytes are consumed.
\<close>

theorem decode_example_10_5:
  "do_ursparse (regular_file (''10 5'' @ [CHR 0x0A] @ ''ABCDE'')) empty_output 4096 True
   = (0,
      (regular_file (''10 5'' @ [CHR 0x0A] @ ''ABCDE''))\<lparr>src_pos := 10\<rparr>,
      empty_output\<lparr>snk_pos := 15, snk_file := replicate 10 None @ map Some ''ABCDE''\<rparr>)"
  by (simp add: decoder_defs)

section \<open>Chunked input\<close>

text \<open>
  Claim C1 (split invariance) does not hold of the code. The same ten bytes decode
  with return value 0 as one block, and with return value 4 and nothing written when
  the first \<^verbatim>\<open>read\<close> returns only the four bytes \<open>10 5\<close>: the call that parses the
  offset and runs out of input in the size field reports only the bytes of the size
  field in \<^verbatim>\<open>*out_sz\<close> (2 of the 4 consumed), so the cursor loop feeds the bytes
  \<open> 5\<close> to the decoder a second time. A block size of 4 cuts the input at the same
  place.
\<close>

theorem split_decode_diverges:
  "fst (do_ursparse (regular_file (''10 5'' @ [CHR 0x0A] @ ''ABCDE'')) empty_output 4096 True) = 0 \<and>
   do_ursparse ((regular_file (''10 5'' @ [CHR 0x0A] @ ''ABCDE''))\<lparr>src_script := [ReadShort 3]\<rparr>)
       empty_output 4096 True
   = (4, (regular_file (''10 5'' @ [CHR 0x0A] @ ''ABCDE''))\<lparr>src_pos := 4\<rparr>, empty_output) \<and>
   do_ursparse (regular_file (''10 5'' @ [CHR 0x0A] @ ''ABCDE'')) empty_output 4 True
   = (4, (regular_file (''10 5'' @ [CHR 0x0A] @ ''ABCDE''))\<lparr>src_pos := 4\<rparr>, empty_output) \<and>
   parse_ursparse ''10 5'' 0 zero_data empty_output
   = (2, 2, \<lparr>ursparse = \<lparr>offset = 10, size_rem = 5\<rparr>, state = PARSE_SIZE\<rparr>, empty_output)"
  by (simp add: decoder_defs)

section \<open>The error state\<close>

lemma case_PARSE_MEAT_reset:
  "case_PARSE_MEAT buff extra_sz out_sz data s = (r, k, data', s') \<Longrightarrow>
   state data' = PARSE_START \<Longrightarrow> state data \<noteq> PARSE_START \<Longrightarrow> r = 0 \<and> data' = zero_data"
  by (auto simp: case_PARSE_MEAT_def Let_def split: prod.splits if_splits)

text \<open>A call for which \<open>payload_entry\<close> has a value goes on as \<^verbatim>\<open>case PARSE_MEAT\<close>
  from there; any other call ends in the error state or in a header state.\<close>

lemma case_PARSE_NEWLINE_entry:
  "payload_entry_NEWLINE buff extra_sz out_sz data s = Some (body, e, o1, d1, s1) \<Longrightarrow>
   case_PARSE_NEWLINE buff extra_sz out_sz data s = case_PARSE_MEAT body e o1 d1 s1"
  by (auto simp: case_PARSE_NEWLINE_def payload_entry_NEWLINE_def split: prod.splits if_splits)

lemma case_PARSE_NEWLINE_no_entry:
  "payload_entry_NEWLINE buff extra_sz out_sz data s = None \<Longrightarrow>
   case_PARSE_NEWLINE buff extra_sz out_sz data s = (r, k, data', s') \<Longrightarrow>
   state data' = PARSE_ERROR \<or> state data' = state data"
  by (auto simp: case_PARSE_NEWLINE_def payload_entry_NEWLINE_def split: prod.splits if_splits)

lemma case_PARSE_SIZE_entry:
  "payload_entry_SIZE buff extra_sz out_sz data s = Some (body, e, o1, d1, s1) \<Longrightarrow>
   case_PARSE_SIZE buff extra_sz out_sz data s = case_PARSE_MEAT body e o1 d1 s1"
  by (auto simp: case_PARSE_SIZE_def payload_entry_SIZE_def Let_def case_PARSE_NEWLINE_entry
           split: prod.splits if_splits)

lemma case_PARSE_SIZE_no_entry:
  "payload_entry_SIZE buff extra_sz out_sz data s = None \<Longrightarrow>
   case_PARSE_SIZE buff extra_sz out_sz data s = (r, k, data', s') \<Longrightarrow>
   state data' = PARSE_ERROR \<or> state data' = PARSE_NEWLINE \<or> state data' = state data"
  by (auto simp: case_PARSE_SIZE_def payload_entry_SIZE_def Let_def
           split: prod.splits if_splits dest!: case_PARSE_NEWLINE_no_entry)

lemma case_PARSE_OFFSET_entry:
  "payload_entry_OFFSET buff extra_sz out_sz data s = Some (body, e, o1, d1, s1) \<Longrightarrow>
   case_PARSE_OFFSET buff extra_sz out_sz data s = case_PARSE_MEAT body e o1 d1 s1"
  by (auto simp: case_PARSE_OFFSET_def payload_entry_OFFSET_def Let_def case_PARSE_SIZE_entry
           split: prod.splits if_splits)

lemma case_PARSE_OFFSET_no_entry:
  "payload_entry_OFFSET buff extra_sz out_sz data s = None \<Longrightarrow>
   case_PARSE_OFFSET buff extra_sz out_sz data s = (r, k, data', s') \<Longrightarrow>
   state data' = PARSE_ERROR \<or> state data' = PARSE_NEWLINE \<or> state data' = PARSE_SIZE
   \<or> state data' = state data"
  by (auto simp: case_PARSE_OFFSET_def payload_entry_OFFSET_def Let_def
           split: prod.splits if_splits dest!: case_PARSE_SIZE_no_entry)

lemma payload_entry_NEWLINE_state:
  "payload_entry_NEWLINE buff extra_sz out_sz data s = Some (body, e, o1, d1, s1) \<Longrightarrow>
   state d1 = PARSE_MEAT"
  by (auto simp: payload_entry_NEWLINE_def split: prod.splits if_splits)

lemma payload_entry_SIZE_state:
  "payload_entry_SIZE buff extra_sz out_sz data s = Some (body, e, o1, d1, s1) \<Longrightarrow>
   state d1 = PARSE_MEAT"
  by (auto simp: payload_entry_SIZE_def split: prod.splits if_splits
           dest: payload_entry_NEWLINE_state)

lemma payload_entry_OFFSET_state:
  "payload_entry_OFFSET buff extra_sz out_sz data s = Some (body, e, o1, d1, s1) \<Longrightarrow>
   state d1 = PARSE_MEAT"
  by (auto simp: payload_entry_OFFSET_def split: prod.splits if_splits
           dest: payload_entry_SIZE_state)

lemma parse_ursparse_entry:
  assumes "payload_entry buff out_sz data s = Some (body, e, o1, d1, s1)"
  shows "parse_ursparse buff out_sz data s = case_PARSE_MEAT body e o1 d1 s1"
    and "state d1 = PARSE_MEAT"
  using assms
  by (auto simp: payload_entry_def parse_ursparse_def case_PARSE_OFFSET_entry
        case_PARSE_SIZE_entry case_PARSE_NEWLINE_entry
        split: if_splits ursparse_state.splits
        dest: payload_entry_OFFSET_state payload_entry_SIZE_state payload_entry_NEWLINE_state)

lemma parse_ursparse_no_entry:
  assumes "payload_entry buff out_sz data s = None"
    and "parse_ursparse buff out_sz data s = (r, k, data', s')"
    and "state data' = PARSE_START"
  shows "buff = [] \<and> r = - 2 \<and> k = out_sz \<and> data' = data \<and> s' = s"
proof (cases "buff = []")
  case True
  with assms(2) show ?thesis by (simp add: parse_ursparse_def)
next
  case False
  have "state data' \<noteq> PARSE_START"
  proof (cases "state data")
    case PARSE_ERROR
    with assms(2) False show ?thesis by (auto simp: parse_ursparse_def)
  next
    case PARSE_START
    with assms False
    have "payload_entry_OFFSET buff 0 out_sz (data\<lparr>state := PARSE_OFFSET\<rparr>) s = None"
      "case_PARSE_OFFSET buff 0 out_sz (data\<lparr>state := PARSE_OFFSET\<rparr>) s = (r, k, data', s')"
      by (simp_all add: payload_entry_def parse_ursparse_def)
    from case_PARSE_OFFSET_no_entry [OF this] show ?thesis by auto
  next
    case PARSE_OFFSET
    with assms False
    have "payload_entry_OFFSET buff 0 out_sz data s = None"
      "case_PARSE_OFFSET buff 0 out_sz data s = (r, k, data', s')"
      by (simp_all add: payload_entry_def parse_ursparse_def)
    from case_PARSE_OFFSET_no_entry [OF this] PARSE_OFFSET show ?thesis by auto
  next
    case PARSE_SIZE
    with assms False
    have "payload_entry_SIZE buff 0 out_sz data s = None"
      "case_PARSE_SIZE buff 0 out_sz data s = (r, k, data', s')"
      by (simp_all add: payload_entry_def parse_ursparse_def)
    from case_PARSE_SIZE_no_entry [OF this] PARSE_SIZE show ?thesis by auto
  next
    case PARSE_NEWLINE
    with assms False
    have "payload_entry_NEWLINE buff 0 out_sz data s = None"
      "case_PARSE_NEWLINE buff 0 out_sz data s = (r, k, data', s')"
      by (simp_all add: payload_entry_def parse_ursparse_def)
    from case_PARSE_NEWLINE_no_entry [OF this] PARSE_NEWLINE show ?thesis by auto
  next
    case PARSE_MEAT
    with assms(1) False show ?thesis by (simp add: payload_entry_def)
  qed
  with assms(3) show ?thesis by simp
qed

text \<open>What \<^verbatim>\<open>case PARSE_MEAT\<close> does when it does not fail: it writes
  \<open>w = min(bytes left in the buffer, bytes outstanding)\<close> bytes, \<open>w > 0\<close>, and resets
  the state exactly when \<open>w\<close> is all that was outstanding.\<close>

lemma unat_of_nat_below:
  "n < unat (w :: off_t) \<Longrightarrow> unat (of_nat n :: off_t) = n"
proof -
  assume a: "n < unat w"
  have "unat w < 2 ^ 64"
    using unsigned_less [of w, where 'a = nat] by simp
  with a show ?thesis by (simp add: unat_of_nat)
qed

lemma case_PARSE_MEAT_outcome:
  assumes "case_PARSE_MEAT body e o1 d1 s1 = (r, k, data', s')" "0 \<le> r"
  shows "\<exists>w. w = min (length body) (unat (size_rem (ursparse d1))) \<and> 0 < w \<and> k = w + e \<and>
             do_meat s1 (take w body) o1 = (int w, w, s') \<and>
             (if w = unat (size_rem (ursparse d1)) then r = 0 \<and> data' = zero_data
              else r = int k \<and>
                   data' = d1\<lparr>ursparse := (ursparse d1)\<lparr>size_rem :=
                                  size_rem (ursparse d1) - of_nat w\<rparr>\<rparr>)"
proof -
  let ?L = "size_rem (ursparse d1)"
  define w where "w = min (length body) (unat ?L)"
  have n: "(if length body > unat ?L then unat ?L else length body) = w"
    by (simp add: w_def min_def)
  obtain rm om sm where dm: "do_meat s1 (take w body) o1 = (rm, om, sm)"
    by (cases "do_meat s1 (take w body) o1")
  from assms dm n have rm: "0 \<le> rm"
    by (auto simp: case_PARSE_MEAT_def Let_def split: if_splits)
  from do_meat_written [OF dm rm] have om: "om = w" "0 < w" "rm = int w"
    by (auto simp: w_def min_def split: if_splits)
  have zero_iff: "?L - of_nat w = 0 \<longleftrightarrow> w = unat ?L"
  proof
    assume "?L - of_nat w = 0"
    then have eq: "?L = of_nat w" by simp
    show "w = unat ?L"
    proof (rule ccontr)
      assume "w \<noteq> unat ?L"
      then have "w < unat ?L" by (simp add: w_def)
      from unat_of_nat_below [OF this] eq show False using \<open>w \<noteq> unat ?L\<close> by simp
    qed
  next
    assume "w = unat ?L"
    then show "?L - of_nat w = 0" by simp
  qed
  have le: "\<not> unat ?L < w" by (simp add: w_def)
  from assms(1) dm n om le zero_iff
  have "k = w + e \<and> s' = sm \<and>
        (if w = unat ?L then r = 0 \<and> data' = zero_data
         else r = int k \<and> data' = d1\<lparr>ursparse := (ursparse d1)\<lparr>size_rem := ?L - of_nat w\<rparr>\<rparr>)"
    by (auto simp: case_PARSE_MEAT_def Let_def split: if_splits)
  with dm om show ?thesis unfolding w_def by auto
qed

lemma parse_ursparse_reset_complete:
  assumes p: "parse_ursparse buff out_sz data s = (r, k, data', s')"
    and st: "state data' = PARSE_START"
  shows "(buff = [] \<and> r = - 2 \<and> k = out_sz \<and> data' = data \<and> s' = s) \<or>
         (r = 0 \<and> data' = zero_data \<and>
          (\<exists>body e o1 d1 s1.
             payload_entry buff out_sz data s = Some (body, e, o1, d1, s1) \<and>
             size_rem (ursparse d1) \<noteq> 0 \<and>
             unat (size_rem (ursparse d1)) \<le> length body \<and>
             do_meat s1 (take (unat (size_rem (ursparse d1))) body) o1
               = (int (unat (size_rem (ursparse d1))), unat (size_rem (ursparse d1)), s') \<and>
             k = unat (size_rem (ursparse d1)) + e))"
proof (cases "payload_entry buff out_sz data s")
  case None
  from parse_ursparse_no_entry [OF None p st] show ?thesis by simp
next
  case (Some a)
  then obtain body e o1 d1 s1 where
    pe: "payload_entry buff out_sz data s = Some (body, e, o1, d1, s1)"
    by (cases a) auto
  from parse_ursparse_entry [OF pe] p
  have m: "case_PARSE_MEAT body e o1 d1 s1 = (r, k, data', s')" and d1: "state d1 = PARSE_MEAT"
    by simp_all
  from case_PARSE_MEAT_reset [OF m st] d1 have r: "r = 0" "data' = zero_data" by simp_all
  let ?L = "size_rem (ursparse d1)"
  from case_PARSE_MEAT_outcome [OF m] r(1)
  obtain w where w: "w = min (length body) (unat ?L)" "0 < w" "k = w + e"
    "do_meat s1 (take w body) o1 = (int w, w, s')"
    "if w = unat ?L then r = 0 \<and> data' = zero_data
     else r = int k \<and> data' = d1\<lparr>ursparse := (ursparse d1)\<lparr>size_rem := ?L - of_nat w\<rparr>\<rparr>"
    by auto
  have weq: "w = unat ?L"
  proof (rule ccontr)
    assume "w \<noteq> unat ?L"
    with w(5) have "r = int k" by simp
    with w(2,3) r(1) show False by simp
  qed
  with w(1,2) have "unat ?L \<le> length body" "?L \<noteq> 0" by auto
  with pe w(3,4) weq r show ?thesis by auto
qed

lemma parse_ursparse_partial_write:
  assumes p: "parse_ursparse buff out_sz data s = (r, k, data', s')" "0 \<le> r"
    and pe: "payload_entry buff out_sz data s = Some (body, e, o1, d1, s1)"
    and short: "length body < unat (size_rem (ursparse d1))"
  shows "0 < r \<and> state data' = PARSE_MEAT \<and>
         data' = d1\<lparr>ursparse := (ursparse d1)\<lparr>size_rem :=
                        size_rem (ursparse d1) - of_nat (length body)\<rparr>\<rparr>"
proof -
  from parse_ursparse_entry [OF pe] p(1)
  have m: "case_PARSE_MEAT body e o1 d1 s1 = (r, k, data', s')" and d1: "state d1 = PARSE_MEAT"
    by simp_all
  let ?L = "size_rem (ursparse d1)"
  from case_PARSE_MEAT_outcome [OF m p(2)]
  obtain w where w: "w = min (length body) (unat ?L)" "0 < w" "k = w + e"
    "if w = unat ?L then r = 0 \<and> data' = zero_data
     else r = int k \<and> data' = d1\<lparr>ursparse := (ursparse d1)\<lparr>size_rem := ?L - of_nat w\<rparr>\<rparr>"
    by auto
  from short w(1) have wl: "w = length body" "w \<noteq> unat ?L" by auto
  with w(4) have res: "r = int k"
    "data' = d1\<lparr>ursparse := (ursparse d1)\<lparr>size_rem := ?L - of_nat w\<rparr>\<rparr>" by simp_all
  from res(1) w(2,3) have "0 < r" by simp
  with res(2) wl(1) d1 show ?thesis by simp
qed

lemmas entry_defs = payload_entry_def payload_entry_OFFSET_def payload_entry_SIZE_def
  payload_entry_NEWLINE_def

text \<open>
  Claim C6. In state \<^verbatim>\<open>PARSE_ERROR\<close> every call of \<^verbatim>\<open>parse_ursparse\<close> returns a
  negative value (-5, or -2 on an empty buffer) and leaves \<^verbatim>\<open>*out_sz\<close>, the
  decoder state and the output untouched, so the state stays \<^verbatim>\<open>PARSE_ERROR\<close> for
  good. A call that leaves the decoder in \<^verbatim>\<open>PARSE_START\<close> either did nothing (an
  empty buffer: return value -2, everything as it was) or completed a segment: it
  returned 0 with the state zeroed, having reached the payload with \<open>L > 0\<close> bytes
  outstanding and at least \<open>L\<close> bytes left in the buffer, and having written
  exactly these \<open>L\<close> bytes with \<^verbatim>\<open>do_meat\<close>. And a call that reaches the payload with
  fewer bytes left in the buffer than are outstanding, and does not fail, does not
  reset: it returns a positive value and stays in \<^verbatim>\<open>PARSE_MEAT\<close>, the bytes written
  taken off the outstanding size.
\<close>

theorem error_state_permanent:
  "(state data = PARSE_ERROR \<longrightarrow>
      parse_ursparse buff out_sz data s = ((if buff = [] then - 2 else - 5), out_sz, data, s)) \<and>
   (parse_ursparse buff out_sz data s = (r, k, data', s') \<and> state data' = PARSE_START \<longrightarrow>
      (buff = [] \<and> r = - 2 \<and> k = out_sz \<and> data' = data \<and> s' = s) \<or>
      (r = 0 \<and> data' = zero_data \<and>
       (\<exists>body e o1 d1 s1.
          payload_entry buff out_sz data s = Some (body, e, o1, d1, s1) \<and>
          size_rem (ursparse d1) \<noteq> 0 \<and>
          unat (size_rem (ursparse d1)) \<le> length body \<and>
          do_meat s1 (take (unat (size_rem (ursparse d1))) body) o1
            = (int (unat (size_rem (ursparse d1))), unat (size_rem (ursparse d1)), s') \<and>
          k = unat (size_rem (ursparse d1)) + e))) \<and>
   (parse_ursparse buff out_sz data s = (r, k, data', s') \<and> 0 \<le> r \<and>
    payload_entry buff out_sz data s = Some (body2, e2, o2, d2, s2) \<and>
    length body2 < unat (size_rem (ursparse d2)) \<longrightarrow>
      0 < r \<and> state data' = PARSE_MEAT \<and>
      data' = d2\<lparr>ursparse := (ursparse d2)\<lparr>size_rem :=
                     size_rem (ursparse d2) - of_nat (length body2)\<rparr>\<rparr>)"
proof -
  have c1: "state data = PARSE_ERROR \<longrightarrow>
      parse_ursparse buff out_sz data s = ((if buff = [] then - 2 else - 5), out_sz, data, s)"
    by (simp add: parse_ursparse_def)
  have c2: "parse_ursparse buff out_sz data s = (r, k, data', s') \<and> state data' = PARSE_START \<longrightarrow>
      (buff = [] \<and> r = - 2 \<and> k = out_sz \<and> data' = data \<and> s' = s) \<or>
      (r = 0 \<and> data' = zero_data \<and>
       (\<exists>body e o1 d1 s1.
          payload_entry buff out_sz data s = Some (body, e, o1, d1, s1) \<and>
          size_rem (ursparse d1) \<noteq> 0 \<and>
          unat (size_rem (ursparse d1)) \<le> length body \<and>
          do_meat s1 (take (unat (size_rem (ursparse d1))) body) o1
            = (int (unat (size_rem (ursparse d1))), unat (size_rem (ursparse d1)), s') \<and>
          k = unat (size_rem (ursparse d1)) + e))"
    using parse_ursparse_reset_complete [of buff out_sz data s r k data' s'] by blast
  have c3: "parse_ursparse buff out_sz data s = (r, k, data', s') \<and> 0 \<le> r \<and>
    payload_entry buff out_sz data s = Some (body2, e2, o2, d2, s2) \<and>
    length body2 < unat (size_rem (ursparse d2)) \<longrightarrow>
      0 < r \<and> state data' = PARSE_MEAT \<and>
      data' = d2\<lparr>ursparse := (ursparse d2)\<lparr>size_rem :=
                     size_rem (ursparse d2) - of_nat (length body2)\<rparr>\<rparr>"
    using parse_ursparse_partial_write [of buff out_sz data s r k data' s' body2 e2 o2 d2 s2]
    by blast
  show ?thesis by (rule conjI [OF c1 conjI [OF c2 c3]])
qed

theorem error_state_permanent_witness:
  "parse_ursparse ''20 3'' 0 \<lparr>ursparse = \<lparr>offset = 10, size_rem = 5\<rparr>, state = PARSE_ERROR\<rparr>
       empty_output
     = (- 5, 0, \<lparr>ursparse = \<lparr>offset = 10, size_rem = 5\<rparr>, state = PARSE_ERROR\<rparr>,
        empty_output) \<and>
   parse_ursparse (''10 5'' @ [CHR 0x0A] @ ''ABCDE'') 0 zero_data empty_output
     = (0, 10, zero_data,
        empty_output\<lparr>snk_pos := 15, snk_file := replicate 10 None @ map Some ''ABCDE''\<rparr>) \<and>
   payload_entry (''10 5'' @ [CHR 0x0A] @ ''ABCDE'') 0 zero_data empty_output
     = Some (''ABCDE'', 5, 1, \<lparr>ursparse = \<lparr>offset = 10, size_rem = 5\<rparr>, state = PARSE_MEAT\<rparr>,
             empty_output\<lparr>snk_pos := 10\<rparr>) \<and>
   parse_ursparse (''10 5'' @ [CHR 0x0A] @ ''AB'') 0 zero_data empty_output
     = (7, 7, \<lparr>ursparse = \<lparr>offset = 10, size_rem = 3\<rparr>, state = PARSE_MEAT\<rparr>,
        empty_output\<lparr>snk_pos := 12, snk_file := replicate 10 None @ map Some ''AB''\<rparr>) \<and>
   payload_entry (''10 5'' @ [CHR 0x0A] @ ''AB'') 0 zero_data empty_output
     = Some (''AB'', 5, 1, \<lparr>ursparse = \<lparr>offset = 10, size_rem = 5\<rparr>, state = PARSE_MEAT\<rparr>,
             empty_output\<lparr>snk_pos := 10\<rparr>)"
  using error_state_permanent
          [where data = "\<lparr>ursparse = \<lparr>offset = 10, size_rem = 5\<rparr>, state = PARSE_ERROR\<rparr>"
             and buff = "''20 3''" and out_sz = 0 and s = empty_output]
        error_state_permanent
          [where data = zero_data and buff = "''10 5'' @ [CHR 0x0A] @ ''ABCDE''" and out_sz = 0
             and s = empty_output and r = 0 and k = 10 and data' = zero_data
             and s' = "empty_output\<lparr>snk_pos := 15,
                         snk_file := replicate 10 None @ map Some ''ABCDE''\<rparr>"]
        error_state_permanent
          [where data = zero_data and buff = "''10 5'' @ [CHR 0x0A] @ ''AB''" and out_sz = 0
             and s = empty_output and r = 7 and k = 7
             and data' = "\<lparr>ursparse = \<lparr>offset = 10, size_rem = 3\<rparr>, state = PARSE_MEAT\<rparr>"
             and s' = "empty_output\<lparr>snk_pos := 12,
                         snk_file := replicate 10 None @ map Some ''AB''\<rparr>"
             and ?body2.0 = "''AB''" and ?e2.0 = 5 and ?o2.0 = 1
             and ?d2.0 = "\<lparr>ursparse = \<lparr>offset = 10, size_rem = 5\<rparr>, state = PARSE_MEAT\<rparr>"
             and ?s2.0 = "empty_output\<lparr>snk_pos := 10\<rparr>"]
  by (simp add: decoder_defs entry_defs)

section \<open>The input seek\<close>

text \<open>
  Claim C10. \<^verbatim>\<open>do_ursparse\<close> starts with the seek of the input to offset 0. On an
  input that cannot seek it returns 1 with the input not read and the output not
  touched; on one that can, the run is the run from offset 0 wherever the descriptor
  stood before.
\<close>

theorem do_ursparse_seeks_input_first:
  "(\<not> src_seekable src \<longrightarrow> do_ursparse src s blk_sz malloc_ok = (1, src, s)) \<and>
   (src_seekable src \<longrightarrow>
      do_ursparse src s blk_sz malloc_ok = do_ursparse (src\<lparr>src_pos := 0\<rparr>) s blk_sz malloc_ok)"
  by (simp add: do_ursparse_def)

theorem do_ursparse_seeks_input_first_witness:
  "do_ursparse \<lparr>src_seekable = False, src_pos = 0, src_file = ''0 1'' @ [CHR 0x0A] @ ''A'',
                 src_script = []\<rparr> empty_output 4096 True
   = (1, \<lparr>src_seekable = False, src_pos = 0, src_file = ''0 1'' @ [CHR 0x0A] @ ''A'',
            src_script = []\<rparr>, empty_output) \<and>
   do_ursparse ((regular_file (''0 1'' @ [CHR 0x0A] @ ''A''))\<lparr>src_pos := 3\<rparr>) empty_output 4096 True
   = (0, (regular_file (''0 1'' @ [CHR 0x0A] @ ''A''))\<lparr>src_pos := 5\<rparr>,
      empty_output\<lparr>snk_pos := 1, snk_file := [Some CHR ''A'']\<rparr>)"
  using do_ursparse_seeks_input_first
          [of "\<lparr>src_seekable = False, src_pos = 0, src_file = ''0 1'' @ [CHR 0x0A] @ ''A'',
                 src_script = []\<rparr>" empty_output 4096 True]
        do_ursparse_seeks_input_first
          [of "(regular_file (''0 1'' @ [CHR 0x0A] @ ''A''))\<lparr>src_pos := 3\<rparr>" empty_output 4096 True]
  by (simp add: decoder_defs)

section \<open>What the field parsers return\<close>

lemma numeral_not_blank: "is_numeral c \<Longrightarrow> \<not> is_blank c"
  by (auto simp: is_numeral_def is_blank_def)

lemma parse_uint_skip_blanks:
  "list_all is_blank ws \<Longrightarrow> (rest = [] \<or> \<not> is_blank (hd rest)) \<Longrightarrow>
   parse_uint_skip (ws @ rest) i = i + length ws"
proof (induction ws arbitrary: i)
  case Nil
  then show ?case by (cases rest) (auto simp: is_blank_def)
next
  case (Cons w ws)
  then show ?case by (simp add: is_blank_def)
qed

lemma parse_uint_loop_field:
  "list_all is_numeral ds \<Longrightarrow> is_blank t \<Longrightarrow>
   parse_uint_loop (ds @ t # rest) i out_sz n = (0, i + length ds, digits_value n ds)"
proof (induction ds arbitrary: i n)
  case Nil
  then show ?case by (auto simp: is_blank_def)
next
  case (Cons d ds)
  then show ?case by (simp add: is_numeral_def)
qed

lemma parse_uint_field_fresh:
  assumes "list_all is_blank ws" "list_all is_numeral ds" "ds \<noteq> []" "is_blank t"
  shows "parse_uint (ws @ ds @ t # rest) out_sz 0 = (0, length ws + length ds, digits_value 0 ds)"
proof -
  from assms(2,3) have "\<not> is_blank (hd (ds @ t # rest))"
    by (cases ds) (auto dest: numeral_not_blank)
  with assms(1) have "parse_uint_skip (ws @ ds @ t # rest) 0 = length ws"
    using parse_uint_skip_blanks [of ws "ds @ t # rest" 0] by simp
  with assms(2,4) show ?thesis
    by (simp add: parse_uint_def parse_uint_loop_field)
qed

lemma parse_uint_field_resumed:
  assumes "n \<noteq> 0" "list_all is_numeral ds" "is_blank t"
  shows "parse_uint (ds @ t # rest) out_sz n = (0, length ds, digits_value n ds)"
  using assms by (simp add: parse_uint_def parse_uint_loop_field)

lemma parse_newline_skip_spaces:
  "list_all (\<lambda>c. c = CHR '' '') sp \<Longrightarrow> (rest = [] \<or> hd rest \<noteq> CHR '' '') \<Longrightarrow>
   parse_newline_skip (sp @ rest) i = i + length sp"
proof (induction sp arbitrary: i)
  case Nil
  then show ?case by (cases rest) auto
next
  case (Cons w ws)
  then show ?case by simp
qed

lemma parse_newline_field:
  assumes "list_all (\<lambda>c. c = CHR '' '') sp"
  shows "parse_newline (sp @ CHR 0x0A # rest) out_sz = (0, length sp + 1)"
proof -
  have "parse_newline_skip (sp @ CHR 0x0A # rest) 0 = length sp"
    using parse_newline_skip_spaces [OF assms, of "CHR 0x0A # rest" 0] by simp
  then show ?thesis by (simp add: parse_newline_def)
qed

lemma parse_uint_loop_done:
  "parse_uint_loop buff i out_sz n = (0, k, n') \<Longrightarrow> buff \<noteq> [] \<or> 0 < i \<Longrightarrow>
   i \<le> k \<and> k < i + length buff \<and> is_blank (buff ! (k - i)) \<and>
   (\<forall>j<k - i. is_numeral (buff ! j))"
proof (induction buff arbitrary: i n)
  case Nil
  then show ?case by simp
next
  case (Cons c cs)
  show ?case
  proof (cases "CHR ''0'' \<le> c \<and> c \<le> CHR ''9''")
    case True
    with Cons.prems
    have "parse_uint_loop cs (Suc i) out_sz (n * 10 + of_nat (of_char c - of_char CHR ''0'')) = (0, k, n')"
      by simp
    from Cons.IH [OF this] have ih: "Suc i \<le> k" "k < Suc i + length cs"
      "is_blank (cs ! (k - Suc i))" "\<forall>j<k - Suc i. is_numeral (cs ! j)" by auto
    have "\<forall>j<k - i. is_numeral ((c # cs) ! j)"
    proof (intro allI impI)
      fix j assume "j < k - i"
      then show "is_numeral ((c # cs) ! j)"
        using ih(4) True by (cases j) (auto simp: is_numeral_def)
    qed
    moreover have "(c # cs) ! (k - i) = cs ! (k - Suc i)"
      using ih(1) by (simp add: Suc_diff_le)
    ultimately show ?thesis using ih by auto
  next
    case False
    with Cons.prems show ?thesis by (auto simp: is_blank_def split: if_splits)
  qed
qed

lemma parse_uint_skip_bounds:
  "i \<le> parse_uint_skip buff i \<and> parse_uint_skip buff i \<le> i + length buff \<and>
   (\<forall>j<parse_uint_skip buff i - i. is_blank (buff ! j))"
proof (induction buff arbitrary: i)
  case Nil
  then show ?case by simp
next
  case (Cons c cs)
  show ?case
  proof (cases "is_blank c")
    case True
    have "\<forall>j<parse_uint_skip cs (Suc i) - i. is_blank ((c # cs) ! j)"
    proof (intro allI impI)
      fix j assume "j < parse_uint_skip cs (Suc i) - i"
      then show "is_blank ((c # cs) ! j)"
        using Cons.IH [of "Suc i"] True by (cases j) auto
    qed
    with Cons.IH [of "Suc i"] True show ?thesis by (auto simp: is_blank_def)
  next
    case False
    then show ?thesis by (simp add: is_blank_def)
  qed
qed

lemma parse_uint_done:
  assumes "parse_uint buff out_sz n = (0, k, n')"
  shows "k < length buff \<and> is_blank (buff ! k) \<and> (\<forall>j<k. is_blank (buff ! j) \<or> is_numeral (buff ! j))"
proof -
  define i where "i = (if n = 0 then parse_uint_skip buff 0 else 0)"
  from assms have ne: "buff \<noteq> []" and loop: "parse_uint_loop (drop i buff) i out_sz n = (0, k, n')"
    by (auto simp: parse_uint_def i_def Let_def split: if_splits)
  have ib: "i \<le> length buff" "\<forall>j<i. is_blank (buff ! j)"
    using parse_uint_skip_bounds [of 0 buff] by (auto simp: i_def)
  have "drop i buff \<noteq> [] \<or> 0 < i" using ne by (cases "i = 0") auto
  from parse_uint_loop_done [OF loop this]
  have d: "i \<le> k" "k < i + length (drop i buff)" "is_blank (drop i buff ! (k - i))"
    "\<forall>j<k - i. is_numeral (drop i buff ! j)" by auto
  have k: "k < length buff" using d(2) ib(1) by simp
  have "is_blank (buff ! k)" using d(1,3) ib(1) k by simp
  moreover have "\<forall>j<k. is_blank (buff ! j) \<or> is_numeral (buff ! j)"
  proof (intro allI impI)
    fix j assume j: "j < k"
    show "is_blank (buff ! j) \<or> is_numeral (buff ! j)"
    proof (cases "j < i")
      case True
      with ib(2) show ?thesis by simp
    next
      case False
      then have "j - i < k - i" using j by simp
      with d(4) have "is_numeral (drop i buff ! (j - i))" by simp
      with False ib(1) k j show ?thesis by simp
    qed
  qed
  ultimately show ?thesis using k by simp
qed

text \<open>
  Claim C5, as the code has it. When \<^verbatim>\<open>parse_uint\<close> reaches the space or newline
  that ends a field it returns 0 with \<^verbatim>\<open>*out_sz\<close> the number of bytes before that
  terminator (the blanks skipped and the numerals): the terminator is not counted,
  and stays in the buffer as the first byte for the next parser. The first two
  parts give the result on a field read from the start and on one resumed with a
  non-zero accumulator; the third says that any return of 0 leaves \<^verbatim>\<open>*out_sz\<close> at
  the index of a blank of the buffer.
\<close>

theorem parse_uint_done_excludes_terminator:
  "(list_all is_blank ws \<and> list_all is_numeral ds \<and> ds \<noteq> [] \<and> is_blank t \<longrightarrow>
      parse_uint (ws @ ds @ t # rest) out_sz 0
      = (0, length ws + length ds, digits_value 0 ds)) \<and>
   (n \<noteq> 0 \<and> list_all is_numeral ds \<and> is_blank t \<longrightarrow>
      parse_uint (ds @ t # rest) out_sz n = (0, length ds, digits_value n ds)) \<and>
   (parse_uint buff out_sz n = (0, k, n') \<longrightarrow> k < length buff \<and> is_blank (buff ! k))"
  using parse_uint_field_fresh [of ws ds t rest out_sz]
        parse_uint_field_resumed [of n ds t rest out_sz]
        parse_uint_done [of buff out_sz n k n']
  by blast

theorem parse_uint_done_excludes_terminator_witness:
  "parse_uint ('' 10 5'') 0 0 = (0, 3, 10) \<and>
   parse_uint (''0'' @ [CHR 0x0A]) 0 1 = (0, 1, 10) \<and>
   parse_uint ''10 5'' 0 0 = (0, 2, 10) \<and> 2 < length ''10 5'' \<and> is_blank (''10 5'' ! 2)"
  using parse_uint_done_excludes_terminator
          [where ws = "'' ''" and ds = "''10''" and t = "CHR '' ''" and rest = "''5''"
             and out_sz = 0 and n = 0 and buff = "''10 5''" and k = 2 and n' = 10]
        parse_uint_done_excludes_terminator
          [where ws = "[]" and ds = "''0''" and t = "CHR 0x0A" and rest = "[]"
             and out_sz = 0 and n = 1 and buff = "''10 5''" and k = 2 and n' = 10]
  by (simp add: is_blank_def is_numeral_def parse_uint_def)

text \<open>
  The claim as written fails: on the buffer \<open>10 5\<close> the offset field ends at the space
  at index 2, and the call returns 0 with \<^verbatim>\<open>*out_sz\<close> = 2, not 3; the space is the
  first byte of what is left.
\<close>

theorem parse_uint_terminator_not_counted:
  "parse_uint ''10 5'' 0 0 = (0, 2, 10) \<and> drop 2 ''10 5'' = '' 5''"
  by (simp add: parse_uint_def)

section \<open>A whole header in one buffer\<close>

lemma case_PARSE_NEWLINE_field:
  assumes "list_all (\<lambda>c. c = CHR '' '') sp"
  shows "case_PARSE_NEWLINE (sp @ CHR 0x0A # body) extra_sz out_sz data s =
         (case do_hole s (offset (ursparse data)) of
            (rh, s1) \<Rightarrow>
              if rh < 0 then (- 8, length sp + 1, data\<lparr>state := PARSE_ERROR\<rparr>, s1)
              else case_PARSE_MEAT body (extra_sz + (length sp + 1)) (length sp + 1)
                     (data\<lparr>state := PARSE_MEAT\<rparr>) s1)"
proof -
  define buff where "buff = sp @ CHR 0x0A # body"
  have p: "parse_newline buff out_sz = (0, length sp + 1)"
    unfolding buff_def by (rule parse_newline_field [OF assms])
  have d: "drop (Suc (length sp)) buff = body"
    by (simp add: buff_def)
  show ?thesis
    unfolding buff_def [symmetric] case_PARSE_NEWLINE_def
    by (simp add: p d split: prod.splits)
qed

lemma case_PARSE_SIZE_field:
  assumes "size_rem (ursparse data) = 0"
    and "list_all is_blank bs" "list_all is_numeral ls" "ls \<noteq> []"
    and "list_all (\<lambda>c. c = CHR '' '') sp"
  shows "case_PARSE_SIZE (bs @ ls @ sp @ CHR 0x0A # body) extra_sz out_sz data s =
         case_PARSE_NEWLINE (sp @ CHR 0x0A # body) (extra_sz + (length bs + length ls))
           (length bs + length ls)
           (data\<lparr>ursparse := (ursparse data)\<lparr>size_rem := digits_value 0 ls\<rparr>,
                  state := PARSE_NEWLINE\<rparr>) s"
proof -
  define buff where "buff = bs @ ls @ sp @ CHR 0x0A # body"
  obtain u tail where sp_eq: "sp @ CHR 0x0A # body = u # tail" and u: "is_blank u"
    using assms(5) by (cases sp) (auto simp: is_blank_def)
  have p: "parse_uint buff out_sz 0 = (0, length bs + length ls, digits_value 0 ls)"
    unfolding buff_def sp_eq by (rule parse_uint_field_fresh [OF assms(2,3,4) u])
  have d: "drop (length bs + length ls) buff = sp @ CHR 0x0A # body"
    by (simp add: buff_def)
  show ?thesis
    unfolding buff_def [symmetric] case_PARSE_SIZE_def
    by (simp add: p d assms(1))
qed

lemma case_PARSE_OFFSET_field:
  assumes "offset (ursparse data) = 0"
    and "list_all is_blank ws" "list_all is_numeral ds" "ds \<noteq> []" "is_blank t"
  shows "case_PARSE_OFFSET (ws @ ds @ t # rest) extra_sz out_sz data s =
         case_PARSE_SIZE (t # rest) (extra_sz + (length ws + length ds))
           (length ws + length ds)
           (data\<lparr>ursparse := (ursparse data)\<lparr>offset := digits_value 0 ds\<rparr>,
                  state := PARSE_SIZE\<rparr>) s"
proof -
  define buff where "buff = ws @ ds @ t # rest"
  have p: "parse_uint buff out_sz 0 = (0, length ws + length ds, digits_value 0 ds)"
    unfolding buff_def by (rule parse_uint_field_fresh [OF assms(2,3,4,5)])
  have d: "drop (length ws + length ds) buff = t # rest"
    by (simp add: buff_def)
  show ?thesis
    unfolding buff_def [symmetric] case_PARSE_OFFSET_def
    by (simp add: p d assms(1))
qed

lemma header_parsed:
  assumes "header_fields ws ds bs ls sp"
  shows "parse_ursparse (header_line ws ds bs ls sp @ body) out_sz zero_data s =
         (case do_hole s (digits_value 0 ds) of
            (rh, s1) \<Rightarrow>
              if rh < 0
              then (- 8, length sp + 1,
                    \<lparr>ursparse = \<lparr>offset = digits_value 0 ds, size_rem = digits_value 0 ls\<rparr>,
                       state = PARSE_ERROR\<rparr>, s1)
              else case_PARSE_MEAT body (length (header_line ws ds bs ls sp)) (length sp + 1)
                     \<lparr>ursparse = \<lparr>offset = digits_value 0 ds, size_rem = digits_value 0 ls\<rparr>,
                        state = PARSE_MEAT\<rparr> s1)"
proof -
  from assms have ws: "list_all is_blank ws" and ds: "list_all is_numeral ds" "ds \<noteq> []"
    and bs: "list_all is_blank bs" "bs \<noteq> []" and ls: "list_all is_numeral ls" "ls \<noteq> []"
    and sp: "list_all (\<lambda>c. c = CHR '' '') sp"
    by (auto simp: header_fields_def)
  obtain t bs' where bs_eq: "bs = t # bs'" using bs(2) by (cases bs) auto
  with bs(1) have t: "is_blank t" by simp
  define d0 where "d0 = zero_data\<lparr>state := PARSE_OFFSET\<rparr>"
  define d1 where "d1 = d0\<lparr>ursparse := (ursparse d0)\<lparr>offset := digits_value 0 ds\<rparr>,
                           state := PARSE_SIZE\<rparr>"
  have buf: "header_line ws ds bs ls sp @ body = ws @ ds @ t # (bs' @ ls @ sp @ CHR 0x0A # body)"
    by (simp add: header_line_def bs_eq)
  have ne: "header_line ws ds bs ls sp @ body \<noteq> []"
    by (simp add: header_line_def)
  have "parse_ursparse (header_line ws ds bs ls sp @ body) out_sz zero_data s
        = case_PARSE_OFFSET (ws @ ds @ t # (bs' @ ls @ sp @ CHR 0x0A # body)) 0 out_sz d0 s"
    using ne by (simp add: parse_ursparse_def d0_def buf zero_data_def)
  also have "\<dots> = case_PARSE_SIZE (bs @ ls @ sp @ CHR 0x0A # body) (length ws + length ds)
                     (length ws + length ds) d1 s"
    using case_PARSE_OFFSET_field [OF _ ws ds t, of d0 "bs' @ ls @ sp @ CHR 0x0A # body" 0 out_sz s]
    by (simp add: d0_def d1_def zero_data_def bs_eq)
  also have "\<dots> = case_PARSE_NEWLINE (sp @ CHR 0x0A # body)
                     (length ws + length ds + (length bs + length ls)) (length bs + length ls)
                     (d1\<lparr>ursparse := (ursparse d1)\<lparr>size_rem := digits_value 0 ls\<rparr>,
                         state := PARSE_NEWLINE\<rparr>) s"
    by (rule case_PARSE_SIZE_field [OF _ bs(1) ls sp]) (simp add: d1_def d0_def zero_data_def)
  also have "\<dots> = (case do_hole s (digits_value 0 ds) of
            (rh, s1) \<Rightarrow>
              if rh < 0
              then (- 8, length sp + 1,
                    \<lparr>ursparse = \<lparr>offset = digits_value 0 ds, size_rem = digits_value 0 ls\<rparr>,
                       state = PARSE_ERROR\<rparr>, s1)
              else case_PARSE_MEAT body (length (header_line ws ds bs ls sp)) (length sp + 1)
                     \<lparr>ursparse = \<lparr>offset = digits_value 0 ds, size_rem = digits_value 0 ls\<rparr>,
                        state = PARSE_MEAT\<rparr> s1)"
    unfolding case_PARSE_NEWLINE_field [OF sp]
    by (simp add: d1_def d0_def zero_data_def header_line_def add.assoc split: prod.splits)
  finally show ?thesis .
qed

lemma digits_value_zeros:
  "list_all (\<lambda>c. c = CHR ''0'') zs \<Longrightarrow> digits_value 0 zs = 0"
  by (induction zs) auto

lemma zero_length_header_fails:
  assumes "header_fields ws ds bs zs sp" and "list_all (\<lambda>c. c = CHR ''0'') zs"
  shows "parse_ursparse (header_line ws ds bs zs sp @ body) out_sz zero_data s =
           (if \<not> snk_seekable s \<or> sint (digits_value 0 ds) < 0 then - 8 else - 2,
            length sp + 1,
            \<lparr>ursparse = \<lparr>offset = digits_value 0 ds, size_rem = 0\<rparr>, state = PARSE_ERROR\<rparr>,
            if \<not> snk_seekable s \<or> sint (digits_value 0 ds) < 0 then s
            else s\<lparr>snk_pos := unat (digits_value 0 ds)\<rparr>)"
  unfolding header_parsed [OF assms(1)] digits_value_zeros [OF assms(2)]
  by (simp add: do_hole_def sys_lseek_set_def case_PARSE_MEAT_def do_meat_def)

lemma zero_length_newline_fails:
  assumes "state data = PARSE_NEWLINE" "size_rem (ursparse data) = 0"
    and "list_all (\<lambda>c. c = CHR '' '') sp"
  shows "parse_ursparse (sp @ CHR 0x0A # body) out_sz data s =
           (if \<not> snk_seekable s \<or> sint (offset (ursparse data)) < 0 then - 8 else - 2,
            length sp + 1, data\<lparr>state := PARSE_ERROR\<rparr>,
            if \<not> snk_seekable s \<or> sint (offset (ursparse data)) < 0 then s
            else s\<lparr>snk_pos := unat (offset (ursparse data))\<rparr>)"
  using assms(1,2)
  by (simp add: parse_ursparse_def case_PARSE_NEWLINE_field [OF assms(3)]
        do_hole_def sys_lseek_set_def case_PARSE_MEAT_def do_meat_def)

lemma zero_length_meat_fails:
  assumes "state data = PARSE_MEAT" "size_rem (ursparse data) = 0" "buff \<noteq> []"
  shows "parse_ursparse buff out_sz data s = (- 2, out_sz, data\<lparr>state := PARSE_ERROR\<rparr>, s)"
  using assms by (simp add: parse_ursparse_def case_PARSE_MEAT_def do_meat_def)

text \<open>
  Within one call, a header that declares length 0 makes the decoder fail where it
  would start on the payload: \<^verbatim>\<open>do_meat\<close> is called with no bytes and returns -2
  (or the seek to the offset fails first, -8); the state becomes \<^verbatim>\<open>PARSE_ERROR\<close> and
  nothing is written. First part: the header line, its length numerals all \<open>0\<close>,
  is handed to the decoder in its start state, whatever follows it in the buffer.
  Second part: the header came in earlier calls, the length read is 0, and the
  newline arrives now. Third part: a call in \<^verbatim>\<open>PARSE_MEAT\<close> with nothing outstanding.
\<close>

lemma zero_length_record_fails:
  "(header_fields ws ds bs zs sp \<and> list_all (\<lambda>c. c = CHR ''0'') zs \<longrightarrow>
      parse_ursparse (header_line ws ds bs zs sp @ body) out_sz zero_data s =
        (if \<not> snk_seekable s \<or> sint (digits_value 0 ds) < 0 then - 8 else - 2,
         length sp + 1,
         \<lparr>ursparse = \<lparr>offset = digits_value 0 ds, size_rem = 0\<rparr>, state = PARSE_ERROR\<rparr>,
         if \<not> snk_seekable s \<or> sint (digits_value 0 ds) < 0 then s
         else s\<lparr>snk_pos := unat (digits_value 0 ds)\<rparr>)) \<and>
   (state data = PARSE_NEWLINE \<and> size_rem (ursparse data) = 0 \<and>
    list_all (\<lambda>c. c = CHR '' '') sp \<longrightarrow>
      parse_ursparse (sp @ CHR 0x0A # body) out_sz data s =
        (if \<not> snk_seekable s \<or> sint (offset (ursparse data)) < 0 then - 8 else - 2,
         length sp + 1, data\<lparr>state := PARSE_ERROR\<rparr>,
         if \<not> snk_seekable s \<or> sint (offset (ursparse data)) < 0 then s
         else s\<lparr>snk_pos := unat (offset (ursparse data))\<rparr>)) \<and>
   (state data = PARSE_MEAT \<and> size_rem (ursparse data) = 0 \<and> buff \<noteq> [] \<longrightarrow>
      parse_ursparse buff out_sz data s = (- 2, out_sz, data\<lparr>state := PARSE_ERROR\<rparr>, s))"
  using zero_length_header_fails [of ws ds bs zs sp body out_sz s]
        zero_length_newline_fails [of data sp body out_sz s]
        zero_length_meat_fails [of data buff out_sz s]
  by blast

section \<open>A zero-length record across two blocks\<close>

text \<open>
  Claim C9 does not hold of the code. The input is a record of 4086 bytes at offset 0
  followed by the record \<open>5 0\<close>, newline, which declares length 0; it is read in
  blocks of 4096 bytes. The first block ends right after the numeral \<open>0\<close> of the
  length and leaves the decoder in \<^verbatim>\<open>PARSE_SIZE\<close> with the length read so far 0.
  \<^verbatim>\<open>parse_uint\<close> skips leading blanks whenever its accumulator is 0, so the newline,
  alone in the second block, is skipped as a blank before the field instead of
  ending it: the call returns 1 (more input needed), \<^verbatim>\<open>do_meat\<close> is never reached,
  and at the end of the input \<^verbatim>\<open>do_ursparse\<close> returns 0 with the first record
  written and no error. The record \<open>5 0\<close>, newline, alone in one block fails with
  return value 4, as the claim says.
\<close>

theorem zero_length_record_not_rejected:
  "do_ursparse
     (regular_file (''0 4086'' @ [CHR 0x0A] @ replicate 4086 CHR ''A'' @ ''5 0'' @ [CHR 0x0A]))
     empty_output 4096 True
   = (0,
      (regular_file (''0 4086'' @ [CHR 0x0A] @ replicate 4086 CHR ''A'' @ ''5 0'' @ [CHR 0x0A]))
        \<lparr>src_pos := 4097\<rparr>,
      empty_output\<lparr>snk_pos := 4086, snk_file := replicate 4086 (Some CHR ''A'')\<rparr>) \<and>
   do_ursparse (regular_file (''5 0'' @ [CHR 0x0A])) empty_output 4096 True
   = (4, (regular_file (''5 0'' @ [CHR 0x0A]))\<lparr>src_pos := 4\<rparr>, empty_output\<lparr>snk_pos := 5\<rparr>) \<and>
   parse_ursparse ''5 0'' 0 zero_data empty_output
   = (2, 2, \<lparr>ursparse = \<lparr>offset = 5, size_rem = 0\<rparr>, state = PARSE_SIZE\<rparr>, empty_output) \<and>
   parse_ursparse [CHR 0x0A] 0
     \<lparr>ursparse = \<lparr>offset = 5, size_rem = 0\<rparr>, state = PARSE_SIZE\<rparr> empty_output
   = (1, 1, \<lparr>ursparse = \<lparr>offset = 5, size_rem = 0\<rparr>, state = PARSE_SIZE\<rparr>, empty_output)"
  by (simp add: decoder_defs)

section \<open>Input that ends inside a payload\<close>

lemma do_meat_plain:
  assumes "snk_script s = []" "buff \<noteq> []"
  shows "do_meat s buff out_sz = (int (length buff), length buff, sink_put s buff)"
proof -
  have w: "sys_write s buff = (int (length buff), sink_put s buff)"
    using assms(1) by (simp add: sys_write_def)
  have "do_meat_loop (sink_put s buff) [] (length buff)
        = (int (length buff), length buff, sink_put s buff)"
    by (simp add: do_meat_loop.simps [of _ "[]"])
  then show ?thesis
    using assms(2) w by (simp add: do_meat_def do_meat_loop.simps [of s buff 0])
qed

lemma case_PARSE_MEAT_short:
  assumes "snk_script s = []" "p \<noteq> []" "length p < unat (size_rem (ursparse data))"
  shows "case_PARSE_MEAT p extra_sz out_sz data s =
           (int (length p + extra_sz), length p + extra_sz,
            data\<lparr>ursparse := (ursparse data)\<lparr>size_rem :=
                     size_rem (ursparse data) - of_nat (length p)\<rparr>\<rparr>,
            sink_put s p)"
proof -
  let ?L = "size_rem (ursparse data)"
  have "unat ?L < 2 ^ 64"
    using unsigned_less [of ?L, where 'a = nat] by simp
  with assms(3) have "unat (of_nat (length p) :: off_t) = length p"
    by (simp add: unat_of_nat)
  with assms(3) have "?L \<noteq> of_nat (length p)" by auto
  then have nz: "?L - of_nat (length p) \<noteq> 0" by simp
  show ?thesis
    using assms nz
    by (simp add: case_PARSE_MEAT_def Let_def do_meat_plain)
qed

lemma parse_record_short:
  assumes hf: "header_fields ws ds bs ls sp"
    and p: "p \<noteq> []" "length p < unat (digits_value 0 ls)"
    and s: "snk_seekable s" "snk_script s = []" "0 \<le> sint (digits_value 0 ds)"
  shows "parse_ursparse (header_line ws ds bs ls sp @ p) out_sz zero_data s =
           (int (length (header_line ws ds bs ls sp @ p)), length (header_line ws ds bs ls sp @ p),
            \<lparr>ursparse = \<lparr>offset = digits_value 0 ds,
                           size_rem = digits_value 0 ls - of_nat (length p)\<rparr>,
               state = PARSE_MEAT\<rparr>,
            sink_put (s\<lparr>snk_pos := unat (digits_value 0 ds)\<rparr>) p)"
proof -
  have hole: "do_hole s (digits_value 0 ds) = (0, s\<lparr>snk_pos := unat (digits_value 0 ds)\<rparr>)"
    using s by (simp add: do_hole_def sys_lseek_set_def)
  show ?thesis
    unfolding header_parsed [OF hf] hole
    using p s(2) by (simp add: case_PARSE_MEAT_short add.commute)
qed

lemma do_ursparse_block_one_call:
  assumes "parse_ursparse buff 0 data s = (r, length buff, data', s')" "0 \<le> r" "buff \<noteq> []"
  shows "do_ursparse_block buff 0 data s = (None, data', s')"
proof -
  have "do_ursparse_block buff (length buff) data' s' = (None, data', s')"
    by (simp add: do_ursparse_block.simps [of buff "length buff"])
  then show ?thesis
    using assms by (simp add: do_ursparse_block.simps [of buff 0])
qed

lemma do_ursparse_loop_one_block:
  assumes blk: "do_ursparse_block (src_file src) 0 data s = (None, data', s')"
    and src: "src_script src = []" "src_pos src = 0" "src_file src \<noteq> []"
      "length (src_file src) \<le> blk_sz"
  shows "do_ursparse_loop src blk_sz data s = (0, src\<lparr>src_pos := length (src_file src)\<rparr>, data', s')"
proof -
  let ?src' = "src\<lparr>src_pos := length (src_file src)\<rparr>"
  have r1: "sys_read src blk_sz = (int (length (src_file src)), src_file src, ?src')"
    using src by (simp add: sys_read_def Let_def)
  have r2: "sys_read ?src' blk_sz = (0, [], ?src')"
    using src by (simp add: sys_read_def Let_def)
  have "do_ursparse_loop ?src' blk_sz data' s' = (0, ?src', data', s')"
    by (simp add: do_ursparse_loop.simps [of ?src'] r2)
  then show ?thesis
    using src(3) by (simp add: do_ursparse_loop.simps [of src] r1 blk)
qed

lemma do_ursparse_loop_end_of_input:
  assumes "src_script src = []" "length (src_file src) \<le> src_pos src"
  shows "do_ursparse_loop src blk_sz data s = (0, src, data, s)"
proof -
  have "sys_read src blk_sz = (0, [], src)"
    using assms by (simp add: sys_read_def Let_def)
  then show ?thesis
    by (simp add: do_ursparse_loop.simps [of src])
qed

text \<open>
  Claim C2, as the code has it. \<^verbatim>\<open>do_ursparse\<close> leaves the read loop on a
  zero-length read without looking at the decoder state. For an input that is one
  header line declaring length \<open>L\<close> followed by \<open>m\<close> payload bytes, \<open>0 < m < L\<close>, read as
  one block into an output that accepts the seek and the write, the run returns 0:
  the \<open>m\<close> bytes are written at the declared offset, the decoder is left in
  \<^verbatim>\<open>PARSE_MEAT\<close> with \<open>L - m\<close> bytes outstanding, and no truncation is reported.
  The last part is the loop at the end of the input: it returns 0 whatever the
  decoder state \<open>data\<close> is.
\<close>

theorem truncated_payload_returns_success:
  assumes hf: "header_fields ws ds bs ls sp"
    and p: "p \<noteq> []" "length p < unat (digits_value 0 ls)"
    and s: "snk_seekable s" "snk_script s = []" "0 \<le> sint (digits_value 0 ds)"
    and src: "src_seekable src" "src_script src = []"
      "src_file src = header_line ws ds bs ls sp @ p" "length (src_file src) \<le> blk_sz"
  shows "do_ursparse_loop (src\<lparr>src_pos := 0\<rparr>) blk_sz zero_data s =
           (0, src\<lparr>src_pos := length (src_file src)\<rparr>,
            \<lparr>ursparse = \<lparr>offset = digits_value 0 ds,
                           size_rem = digits_value 0 ls - of_nat (length p)\<rparr>,
               state = PARSE_MEAT\<rparr>,
            sink_put (s\<lparr>snk_pos := unat (digits_value 0 ds)\<rparr>) p) \<and>
         do_ursparse src s blk_sz True =
           (0, src\<lparr>src_pos := length (src_file src)\<rparr>,
            sink_put (s\<lparr>snk_pos := unat (digits_value 0 ds)\<rparr>) p) \<and>
         (src_script src1 = [] \<and> length (src_file src1) \<le> src_pos src1 \<longrightarrow>
            do_ursparse_loop src1 blk_sz data s1 = (0, src1, data, s1))"
proof -
  let ?buff = "header_line ws ds bs ls sp @ p"
  let ?src0 = "src\<lparr>src_pos := 0\<rparr>"
  have "do_ursparse_block ?buff 0 zero_data s =
          (None,
           \<lparr>ursparse = \<lparr>offset = digits_value 0 ds,
                          size_rem = digits_value 0 ls - of_nat (length p)\<rparr>,
              state = PARSE_MEAT\<rparr>,
           sink_put (s\<lparr>snk_pos := unat (digits_value 0 ds)\<rparr>) p)"
    using parse_record_short [OF hf p s, of 0] p(1)
    by (intro do_ursparse_block_one_call [where r = "int (length ?buff)"]) auto
  then have blk: "do_ursparse_block (src_file ?src0) 0 zero_data s =
          (None,
           \<lparr>ursparse = \<lparr>offset = digits_value 0 ds,
                          size_rem = digits_value 0 ls - of_nat (length p)\<rparr>,
              state = PARSE_MEAT\<rparr>,
           sink_put (s\<lparr>snk_pos := unat (digits_value 0 ds)\<rparr>) p)"
    by (simp add: src(3))
  have loop: "do_ursparse_loop ?src0 blk_sz zero_data s =
           (0, ?src0\<lparr>src_pos := length (src_file ?src0)\<rparr>,
            \<lparr>ursparse = \<lparr>offset = digits_value 0 ds,
                           size_rem = digits_value 0 ls - of_nat (length p)\<rparr>,
               state = PARSE_MEAT\<rparr>,
            sink_put (s\<lparr>snk_pos := unat (digits_value 0 ds)\<rparr>) p)"
    using src p(1) by (intro do_ursparse_loop_one_block [OF blk]) auto
  then show ?thesis
    using src(1) do_ursparse_loop_end_of_input [of src1 blk_sz data s1]
    by (simp add: do_ursparse_def)
qed

theorem truncated_payload_returns_success_witness:
  "header_fields [] ''10'' '' '' ''5'' [] \<and>
   length ''AB'' < unat (digits_value 0 ''5'') \<and> 0 \<le> sint (digits_value 0 ''10'') \<and>
   do_ursparse (regular_file (''10 5'' @ [CHR 0x0A] @ ''AB'')) empty_output 4096 True
   = (0, (regular_file (''10 5'' @ [CHR 0x0A] @ ''AB''))\<lparr>src_pos := 7\<rparr>,
      empty_output\<lparr>snk_pos := 12, snk_file := replicate 10 None @ map Some ''AB''\<rparr>) \<and>
   do_ursparse_loop ((regular_file (''10 5'' @ [CHR 0x0A] @ ''AB''))\<lparr>src_pos := 7\<rparr>) 4096
     \<lparr>ursparse = \<lparr>offset = 10, size_rem = 3\<rparr>, state = PARSE_MEAT\<rparr> empty_output
   = (0, (regular_file (''10 5'' @ [CHR 0x0A] @ ''AB''))\<lparr>src_pos := 7\<rparr>,
      \<lparr>ursparse = \<lparr>offset = 10, size_rem = 3\<rparr>, state = PARSE_MEAT\<rparr>, empty_output)"
  using truncated_payload_returns_success
          [where ws = "[]" and ds = "''10''" and bs = "'' ''" and ls = "''5''" and sp = "[]"
             and p = "''AB''" and s = empty_output
             and src = "regular_file (''10 5'' @ [CHR 0x0A] @ ''AB'')" and blk_sz = 4096
             and ?src1.0 = "(regular_file (''10 5'' @ [CHR 0x0A] @ ''AB''))\<lparr>src_pos := 7\<rparr>"
             and data = "\<lparr>ursparse = \<lparr>offset = 10, size_rem = 3\<rparr>, state = PARSE_MEAT\<rparr>"
             and ?s1.0 = empty_output]
  by (simp add: header_fields_def header_line_def is_blank_def is_numeral_def
        empty_output_def regular_file_def sink_put_def)

text \<open>
  The claim as written fails: the input \<open>10 5\<close>, newline, \<open>AB\<close> ends three bytes short of
  the declared length, and the run returns 0, not an error; the loop ends with the
  decoder in \<^verbatim>\<open>PARSE_MEAT\<close>, three bytes outstanding.
\<close>

theorem truncated_payload_accepted:
  "do_ursparse (regular_file (''10 5'' @ [CHR 0x0A] @ ''AB'')) empty_output 4096 True
   = (0, (regular_file (''10 5'' @ [CHR 0x0A] @ ''AB''))\<lparr>src_pos := 7\<rparr>,
      empty_output\<lparr>snk_pos := 12, snk_file := replicate 10 None @ map Some ''AB''\<rparr>) \<and>
   do_ursparse_loop (regular_file (''10 5'' @ [CHR 0x0A] @ ''AB'')) 4096 zero_data empty_output
   = (0, (regular_file (''10 5'' @ [CHR 0x0A] @ ''AB''))\<lparr>src_pos := 7\<rparr>,
      \<lparr>ursparse = \<lparr>offset = 10, size_rem = 3\<rparr>, state = PARSE_MEAT\<rparr>,
      empty_output\<lparr>snk_pos := 12, snk_file := replicate 10 None @ map Some ''AB''\<rparr>)"
  by (simp add: decoder_defs)

section \<open>Bytes that no header field accepts\<close>

lemma parse_uint_skip_stops:
  "\<not> is_blank c \<Longrightarrow> parse_uint_skip (pre @ c # rest) i = parse_uint_skip pre i"
  by (induction pre arbitrary: i) (auto simp: is_blank_def)

lemma parse_uint_skip_append:
  "parse_uint_skip pre i < i + length pre \<Longrightarrow> parse_uint_skip (pre @ ys) i = parse_uint_skip pre i"
proof (induction pre arbitrary: i)
  case Nil
  then show ?case by simp
next
  case (Cons x xs)
  show ?case
  proof (cases "x = CHR '' '' \<or> x = CHR 0x0A")
    case True
    with Cons.prems have "parse_uint_skip xs (Suc i) < Suc i + length xs" by simp
    from Cons.IH [OF this] True show ?thesis by simp
  next
    case False
    then show ?thesis by simp
  qed
qed

lemma parse_newline_skip_stops:
  "c \<noteq> CHR '' '' \<Longrightarrow> parse_newline_skip (pre @ c # rest) i = parse_newline_skip pre i"
  by (induction pre arbitrary: i) auto

lemma parse_newline_skip_bounds:
  "i \<le> parse_newline_skip buff i \<and> parse_newline_skip buff i \<le> i + length buff"
proof (induction buff arbitrary: i)
  case Nil
  then show ?case by simp
next
  case (Cons c cs)
  from Cons.IH [of "Suc i"] show ?case by auto
qed

lemma parse_uint_loop_more_bad:
  "parse_uint_loop pre i out_sz n = (r, k, n') \<Longrightarrow> 0 < r \<Longrightarrow>
   \<not> is_numeral c \<Longrightarrow> \<not> is_blank c \<Longrightarrow>
   \<exists>n''. parse_uint_loop (pre @ c # rest) i out_sz n = (- 1, out_sz, n'')"
proof (induction pre arbitrary: i n)
  case Nil
  then show ?case by (auto simp: is_numeral_def is_blank_def)
next
  case (Cons x xs)
  show ?case
  proof (cases "CHR ''0'' \<le> x \<and> x \<le> CHR ''9''")
    case True
    with Cons.prems(1)
    have "parse_uint_loop xs (Suc i) out_sz (n * 10 + of_nat (of_char x - of_char CHR ''0'')) = (r, k, n')"
      by simp
    from Cons.IH [OF this Cons.prems(2,3,4)] True show ?thesis by simp
  next
    case False
    with Cons.prems show ?thesis by (auto split: if_splits)
  qed
qed

lemma parse_uint_loop_done_append:
  "parse_uint_loop pre i out_sz n = (0, k, n') \<Longrightarrow> pre \<noteq> [] \<or> 0 < i \<Longrightarrow>
   parse_uint_loop (pre @ ys) i out_sz n = (0, k, n')"
proof (induction pre arbitrary: i n)
  case Nil
  then show ?case by simp
next
  case (Cons x xs)
  show ?case
  proof (cases "CHR ''0'' \<le> x \<and> x \<le> CHR ''9''")
    case True
    with Cons.prems(1)
    have "parse_uint_loop xs (Suc i) out_sz (n * 10 + of_nat (of_char x - of_char CHR ''0'')) = (0, k, n')"
      by simp
    from Cons.IH [OF this] True show ?thesis by simp
  next
    case False
    with Cons.prems show ?thesis by (auto split: if_splits)
  qed
qed

lemma parse_uint_more_bad:
  assumes "parse_uint pre out_sz n = (r, k, n')" "0 < r" "\<not> is_numeral c" "\<not> is_blank c"
  shows "\<exists>n''. parse_uint (pre @ c # rest) out_sz n = (- 1, out_sz, n'')"
proof -
  define i where "i = (if n = 0 then parse_uint_skip pre 0 else 0)"
  from assms(1,2) have ne: "pre \<noteq> []"
    and loop: "parse_uint_loop (drop i pre) i out_sz n = (r, k, n')"
    by (auto simp: parse_uint_def i_def Let_def split: if_splits)
  have le: "i \<le> length pre"
    using parse_uint_skip_bounds [of 0 pre] by (simp add: i_def)
  have i': "(if n = 0 then parse_uint_skip (pre @ c # rest) 0 else 0) = i"
    using assms(4) by (simp add: i_def parse_uint_skip_stops)
  have d: "drop i (pre @ c # rest) = drop i pre @ c # rest"
    using le by simp
  from parse_uint_loop_more_bad [OF loop assms(2,3,4), of rest]
  show ?thesis by (simp add: parse_uint_def i' d del: drop_append)
qed

lemma parse_uint_done_append:
  assumes "parse_uint pre out_sz n = (0, k, n')"
  shows "parse_uint (pre @ ys) out_sz n = (0, k, n')"
proof -
  define i where "i = (if n = 0 then parse_uint_skip pre 0 else 0)"
  from assms have ne: "pre \<noteq> []"
    and loop: "parse_uint_loop (drop i pre) i out_sz n = (0, k, n')"
    by (auto simp: parse_uint_def i_def Let_def split: if_splits)
  have le: "i \<le> length pre"
    using parse_uint_skip_bounds [of 0 pre] by (simp add: i_def)
  have lt: "i < length pre"
  proof (rule ccontr)
    assume "\<not> i < length pre"
    with le have "drop i pre = []" by simp
    with loop have "i = 0" by simp
    with \<open>\<not> i < length pre\<close> ne show False by simp
  qed
  have i': "(if n = 0 then parse_uint_skip (pre @ ys) 0 else 0) = i"
    using lt parse_uint_skip_append [of pre 0 ys] by (auto simp: i_def split: if_splits)
  have d: "drop i (pre @ ys) = drop i pre @ ys"
    using le by simp
  from lt have "drop i pre \<noteq> []" by simp
  from parse_uint_loop_done_append [OF loop disjI1 [OF this], of ys]
  show ?thesis using ne by (simp add: parse_uint_def i' d del: drop_append)
qed

lemma parse_newline_more_bad:
  assumes "parse_newline pre out_sz = (r, k)" "0 < r" "c \<noteq> CHR '' ''" "c \<noteq> CHR 0x0A"
  shows "parse_newline (pre @ c # rest) out_sz = (- 1, out_sz)"
proof -
  define i where "i = parse_newline_skip pre 0"
  from assms(1,2) have ne: "pre \<noteq> []"
    and loop: "parse_newline_loop (drop i pre) i out_sz = (r, k)"
    by (auto simp: parse_newline_def i_def Let_def split: if_splits)
  have le: "i \<le> length pre"
    using parse_newline_skip_bounds [of 0 pre] by (simp add: i_def)
  have "drop i pre = []"
    using loop assms(2) by (cases "drop i pre") (auto split: if_splits)
  with le have d: "drop i (pre @ c # rest) = c # rest" by simp
  have "parse_newline_skip (pre @ c # rest) 0 = i"
    using assms(3) by (simp add: i_def parse_newline_skip_stops)
  then show ?thesis using assms(4) by (simp add: parse_newline_def d del: drop_append)
qed

lemma case_PARSE_MEAT_more_state:
  "case_PARSE_MEAT buff extra_sz out_sz data s = (r, k, data', s') \<Longrightarrow> 0 < r \<Longrightarrow>
   state data' = state data"
  by (auto simp: case_PARSE_MEAT_def Let_def zero_data_def split: prod.splits if_splits)

lemma case_PARSE_NEWLINE_bad:
  assumes "case_PARSE_NEWLINE pre extra_sz out_sz data s = (r0, k0, d0, s0)"
    and "0 < r0" "state d0 \<noteq> PARSE_MEAT" "\<not> is_numeral c" "\<not> is_blank c"
  shows "case_PARSE_NEWLINE (pre @ c # rest) extra_sz out_sz data s
         = (- 1, out_sz, data\<lparr>state := PARSE_ERROR\<rparr>, s)"
proof -
  obtain r k where pn: "parse_newline pre out_sz = (r, k)" by (cases "parse_newline pre out_sz")
  have c: "c \<noteq> CHR '' ''" "c \<noteq> CHR 0x0A" using assms(5) by (auto simp: is_blank_def)
  have "0 < r"
  proof (rule ccontr)
    assume "\<not> 0 < r"
    with assms(1,2) pn have r: "r = 0" and
      "(case do_hole s (offset (ursparse data)) of
         (rh, s1) \<Rightarrow> if rh < 0 then (- 8, k, data\<lparr>state := PARSE_ERROR\<rparr>, s1)
                     else case_PARSE_MEAT (drop k pre) (extra_sz + k) k
                            (data\<lparr>state := PARSE_MEAT\<rparr>) s1) = (r0, k0, d0, s0)"
      by (auto simp: case_PARSE_NEWLINE_def split: if_splits)
    then obtain s1 where
      "case_PARSE_MEAT (drop k pre) (extra_sz + k) k (data\<lparr>state := PARSE_MEAT\<rparr>) s1
       = (r0, k0, d0, s0)"
      using assms(2) by (auto split: prod.splits if_splits)
    from case_PARSE_MEAT_more_state [OF this assms(2)] assms(3) show False by simp
  qed
  from parse_newline_more_bad [OF pn this c, of rest]
  show ?thesis by (simp add: case_PARSE_NEWLINE_def)
qed

lemma case_PARSE_SIZE_bad:
  assumes "case_PARSE_SIZE pre extra_sz out_sz data s = (r0, k0, d0, s0)"
    and "0 < r0" "state d0 \<noteq> PARSE_MEAT" "\<not> is_numeral c" "\<not> is_blank c"
  shows "\<exists>k d. case_PARSE_SIZE (pre @ c # rest) extra_sz out_sz data s = (- 1, k, d, s) \<and>
               state d = PARSE_ERROR"
proof -
  obtain r k n where pu: "parse_uint pre out_sz (size_rem (ursparse data)) = (r, k, n)"
    by (cases "parse_uint pre out_sz (size_rem (ursparse data))")
  from assms(1,2) pu have "0 \<le> r"
    by (auto simp: case_PARSE_SIZE_def Let_def split: if_splits)
  then consider "0 < r" | "r = 0" by linarith
  then show ?thesis
  proof cases
    case 1
    from parse_uint_more_bad [OF pu 1 assms(4,5), of rest]
    show ?thesis by (auto simp: case_PARSE_SIZE_def Let_def)
  next
    case 2
    with pu have fin: "parse_uint pre out_sz (size_rem (ursparse data)) = (0, k, n)" by simp
    from parse_uint_done [OF fin] have k: "k < length pre" by simp
    let ?d1 = "data\<lparr>ursparse := (ursparse data)\<lparr>size_rem := n\<rparr>, state := PARSE_NEWLINE\<rparr>"
    from assms(1) fin
    have nl: "case_PARSE_NEWLINE (drop k pre) (extra_sz + k) k ?d1 s = (r0, k0, d0, s0)"
      by (simp add: case_PARSE_SIZE_def Let_def)
    have d: "drop k (pre @ c # rest) = drop k pre @ c # rest" using k by simp
    from case_PARSE_NEWLINE_bad [OF nl assms(2,3,4,5), of rest]
         parse_uint_done_append [OF fin, of "c # rest"]
    show ?thesis by (simp add: case_PARSE_SIZE_def Let_def d del: drop_append)
  qed
qed

lemma case_PARSE_OFFSET_bad:
  assumes "case_PARSE_OFFSET pre extra_sz out_sz data s = (r0, k0, d0, s0)"
    and "0 < r0" "state d0 \<noteq> PARSE_MEAT" "\<not> is_numeral c" "\<not> is_blank c"
  shows "\<exists>k d. case_PARSE_OFFSET (pre @ c # rest) extra_sz out_sz data s = (- 1, k, d, s) \<and>
               state d = PARSE_ERROR"
proof -
  obtain r k n where pu: "parse_uint pre out_sz (offset (ursparse data)) = (r, k, n)"
    by (cases "parse_uint pre out_sz (offset (ursparse data))")
  from assms(1,2) pu have "0 \<le> r"
    by (auto simp: case_PARSE_OFFSET_def Let_def split: if_splits)
  then consider "0 < r" | "r = 0" by linarith
  then show ?thesis
  proof cases
    case 1
    from parse_uint_more_bad [OF pu 1 assms(4,5), of rest]
    show ?thesis by (auto simp: case_PARSE_OFFSET_def Let_def)
  next
    case 2
    with pu have fin: "parse_uint pre out_sz (offset (ursparse data)) = (0, k, n)" by simp
    from parse_uint_done [OF fin] have k: "k < length pre" by simp
    let ?d1 = "data\<lparr>ursparse := (ursparse data)\<lparr>offset := n\<rparr>, state := PARSE_SIZE\<rparr>"
    from assms(1) fin
    have sz: "case_PARSE_SIZE (drop k pre) (extra_sz + k) k ?d1 s = (r0, k0, d0, s0)"
      by (simp add: case_PARSE_OFFSET_def Let_def)
    have d: "drop k (pre @ c # rest) = drop k pre @ c # rest" using k by simp
    from case_PARSE_SIZE_bad [OF sz assms(2,3,4,5), of rest]
         parse_uint_done_append [OF fin, of "c # rest"]
    show ?thesis by (simp add: case_PARSE_OFFSET_def Let_def d del: drop_append)
  qed
qed

lemma parse_uint_bad_first:
  "\<not> is_numeral c \<Longrightarrow> \<not> is_blank c \<Longrightarrow> parse_uint (c # rest) out_sz n = (- 1, out_sz, n)"
  by (auto simp: parse_uint_def is_numeral_def is_blank_def)

lemma parse_newline_bad_first:
  "\<not> is_blank c \<Longrightarrow> parse_newline (c # rest) out_sz = (- 1, out_sz)"
  by (simp add: parse_newline_def is_blank_def)

lemma parse_ursparse_bad_first:
  assumes "state data \<in> {PARSE_START, PARSE_OFFSET, PARSE_SIZE, PARSE_NEWLINE}"
    and "\<not> is_numeral c" "\<not> is_blank c"
  shows "\<exists>k d. parse_ursparse (c # rest) out_sz data s = (- 1, k, d, s) \<and> state d = PARSE_ERROR"
  using assms
  by (auto simp: parse_ursparse_def case_PARSE_OFFSET_def case_PARSE_SIZE_def
        case_PARSE_NEWLINE_def parse_uint_bad_first parse_newline_bad_first)

lemma parse_ursparse_bad_later:
  assumes "state data \<in> {PARSE_START, PARSE_OFFSET, PARSE_SIZE, PARSE_NEWLINE}"
    and "\<not> is_numeral c" "\<not> is_blank c"
    and "parse_ursparse pre out_sz data s = (r0, k0, d0, s0)" "0 < r0" "state d0 \<noteq> PARSE_MEAT"
  shows "\<exists>k d. parse_ursparse (pre @ c # rest) out_sz data s = (- 1, k, d, s) \<and>
               state d = PARSE_ERROR"
proof -
  from assms(4,5) have ne: "pre \<noteq> []" by (auto simp: parse_ursparse_def)
  from assms(1) consider "state data = PARSE_START" | "state data = PARSE_OFFSET"
    | "state data = PARSE_SIZE" | "state data = PARSE_NEWLINE" by auto
  then show ?thesis
  proof cases
    case 1
    with assms(4) ne
    have "case_PARSE_OFFSET pre 0 out_sz (data\<lparr>state := PARSE_OFFSET\<rparr>) s = (r0, k0, d0, s0)"
      by (simp add: parse_ursparse_def)
    from case_PARSE_OFFSET_bad [OF this assms(5,6,2,3), of rest] 1
    show ?thesis by (simp add: parse_ursparse_def)
  next
    case 2
    with assms(4) ne
    have "case_PARSE_OFFSET pre 0 out_sz data s = (r0, k0, d0, s0)"
      by (simp add: parse_ursparse_def)
    from case_PARSE_OFFSET_bad [OF this assms(5,6,2,3), of rest] 2
    show ?thesis by (simp add: parse_ursparse_def)
  next
    case 3
    with assms(4) ne
    have "case_PARSE_SIZE pre 0 out_sz data s = (r0, k0, d0, s0)"
      by (simp add: parse_ursparse_def)
    from case_PARSE_SIZE_bad [OF this assms(5,6,2,3), of rest] 3
    show ?thesis by (simp add: parse_ursparse_def)
  next
    case 4
    with assms(4) ne
    have "case_PARSE_NEWLINE pre 0 out_sz data s = (r0, k0, d0, s0)"
      by (simp add: parse_ursparse_def)
    from case_PARSE_NEWLINE_bad [OF this assms(5,6,2,3), of rest] 4
    show ?thesis by (simp add: parse_ursparse_def)
  qed
qed

text \<open>
  Within one call: let the decoder be in a header state (start, offset, size or
  newline) and let \<open>c\<close> be a byte that is neither a numeral nor a space nor a newline.
  If \<open>c\<close> is the first byte of the buffer, or comes after bytes \<open>pre\<close> on which the
  decoder alone would still be waiting inside the header (a positive return in a
  header state), then the call returns -1 and sets \<^verbatim>\<open>PARSE_ERROR\<close>, and the output
  is exactly as it was: no seek and no payload byte.
\<close>

lemma malformed_header_byte_fails:
  assumes "state data \<in> {PARSE_START, PARSE_OFFSET, PARSE_SIZE, PARSE_NEWLINE}"
    and "\<not> is_numeral c" "\<not> is_blank c"
    and "pre = [] \<or>
         (case parse_ursparse pre out_sz data s of
            (r0, k0, d0, s0) \<Rightarrow>
              0 < r0 \<and> state d0 \<in> {PARSE_OFFSET, PARSE_SIZE, PARSE_NEWLINE})"
  shows "\<exists>k d. parse_ursparse (pre @ c # rest) out_sz data s = (- 1, k, d, s) \<and>
               state d = PARSE_ERROR"
proof (cases "pre = []")
  case True
  with parse_ursparse_bad_first [OF assms(1,2,3), of rest out_sz s] show ?thesis by simp
next
  case False
  obtain r0 k0 d0 s0 where p: "parse_ursparse pre out_sz data s = (r0, k0, d0, s0)"
    by (cases "parse_ursparse pre out_sz data s")
  with assms(4) False have "0 < r0" "state d0 \<noteq> PARSE_MEAT" by auto
  from parse_ursparse_bad_later [OF assms(1,2,3) p this] show ?thesis .
qed

section \<open>A malformed header behind a block boundary\<close>

text \<open>
  Claim C7 does not hold of the code. The input has three records: 4088 bytes at
  offset 0; the five bytes \<open>12\<close>, newline, \<open>AB\<close> at offset 0; and a third whose header
  begins with the byte \<open>C\<close>, which no header field accepts. It is read in blocks of
  4096 bytes, and the first block ends right after the numeral \<open>0\<close> that is the
  offset of the second record. \<^verbatim>\<open>parse_uint\<close> skips leading blanks whenever its
  accumulator is 0, so in the second block the offset field is taken up as if it had
  not begun: the space that ends it is skipped, \<open>5\<close> becomes the offset and \<open>12\<close> the
  length, and the twelve bytes from \<open>ABCD9 1x\<close> on, the malformed header among them,
  are written at offset 5 as payload. The run returns 0. Second part: with the first
  record one byte longer, so that the block boundary falls between two records,
  the run stops with return value 4 at the byte \<open>C\<close>, after the second record was
  written. Third part: the same for the second and third record alone. Fourth
  part: the call on the second block.
\<close>

theorem malformed_byte_written_as_payload:
  "do_ursparse
     (regular_file (''0 4088'' @ [CHR 0x0A] @ replicate 4088 CHR ''A'' @
                    ''0 5'' @ [CHR 0x0A] @ ''12'' @ [CHR 0x0A] @ ''ABCD9 1x'' @ [CHR 0x0A] @ ''CDE''))
     empty_output 4096 True
   = (0,
      (regular_file (''0 4088'' @ [CHR 0x0A] @ replicate 4088 CHR ''A'' @
                     ''0 5'' @ [CHR 0x0A] @ ''12'' @ [CHR 0x0A] @ ''ABCD9 1x'' @ [CHR 0x0A] @ ''CDE''))
        \<lparr>src_pos := 4114\<rparr>,
      empty_output\<lparr>snk_pos := 17,
        snk_file := replicate 5 (Some CHR ''A'') @
                    map Some (''ABCD9 1x'' @ [CHR 0x0A] @ ''CDE'') @
                    replicate 4071 (Some CHR ''A'')\<rparr>) \<and>
   do_ursparse
     (regular_file (''0 4089'' @ [CHR 0x0A] @ replicate 4089 CHR ''A'' @
                    ''0 5'' @ [CHR 0x0A] @ ''12'' @ [CHR 0x0A] @ ''ABCD9 1x'' @ [CHR 0x0A] @ ''CDE''))
     empty_output 4096 True
   = (4,
      (regular_file (''0 4089'' @ [CHR 0x0A] @ replicate 4089 CHR ''A'' @
                     ''0 5'' @ [CHR 0x0A] @ ''12'' @ [CHR 0x0A] @ ''ABCD9 1x'' @ [CHR 0x0A] @ ''CDE''))
        \<lparr>src_pos := 4115\<rparr>,
      empty_output\<lparr>snk_pos := 5,
        snk_file := map Some (''12'' @ [CHR 0x0A] @ ''AB'') @ replicate 4084 (Some CHR ''A'')\<rparr>) \<and>
   do_ursparse
     (regular_file (''0 5'' @ [CHR 0x0A] @ ''12'' @ [CHR 0x0A] @ ''ABCD9 1x'' @ [CHR 0x0A] @ ''CDE''))
     empty_output 4096 True
   = (4,
      (regular_file (''0 5'' @ [CHR 0x0A] @ ''12'' @ [CHR 0x0A] @ ''ABCD9 1x'' @ [CHR 0x0A] @ ''CDE''))
        \<lparr>src_pos := 19\<rparr>,
      empty_output\<lparr>snk_pos := 5, snk_file := map Some (''12'' @ [CHR 0x0A] @ ''AB'')\<rparr>) \<and>
   parse_ursparse ('' 5'' @ [CHR 0x0A] @ ''12'' @ [CHR 0x0A] @ ''ABCD9 1x'' @ [CHR 0x0A] @ ''CDE'') 0
     \<lparr>ursparse = \<lparr>offset = 0, size_rem = 0\<rparr>, state = PARSE_OFFSET\<rparr>
     (empty_output\<lparr>snk_pos := 4088, snk_file := replicate 4088 (Some CHR ''A'')\<rparr>)
   = (0, 18, zero_data,
      empty_output\<lparr>snk_pos := 17,
        snk_file := replicate 5 (Some CHR ''A'') @
                    map Some (''ABCD9 1x'' @ [CHR 0x0A] @ ''CDE'') @
                    replicate 4071 (Some CHR ''A'')\<rparr>)"
  by (simp add: decoder_defs)

section \<open>The last extent of a sparse input\<close>

text \<open>Every \<^verbatim>\<open>break\<close> leaves \<^verbatim>\<open>start\<close> or \<^verbatim>\<open>end\<close> at -1, so the block after the loop,
  which would emit one more extent and return 3 on failure, never runs.\<close>

lemma do_sparse_loop_exit:
  "do_sparse_loop src s start end_off = Some y \<Longrightarrow>
   (\<forall>rc. fst y = Returned rc \<longrightarrow> rc = 1 \<or> rc = 2) \<and>
   (\<forall>st en. fst y = Broke st en \<longrightarrow> st = - 1 \<or> en = - 1)"
  by (rule do_sparse_loop.raw_induct
        [where P = "\<lambda>_ _ _ _ y. (\<forall>rc. fst y = Returned rc \<longrightarrow> rc = 1 \<or> rc = 2) \<and>
                       (\<forall>st en. fst y = Broke st en \<longrightarrow> st = - 1 \<or> en = - 1)"])
     (auto split: sum.splits prod.splits if_splits)

lemma do_sparse_post_loop_unreachable:
  assumes "do_sparse src s = Some (rc, s')"
  shows "rc \<noteq> 3"
proof (cases "sps_seekable src")
  case False
  with assms show ?thesis by (simp add: do_sparse_def)
next
  case True
  with assms obtain ex src1 s1 where loop: "do_sparse_loop src s 0 0 = Some (ex, src1, s1)"
    by (auto simp: do_sparse_def split: option.splits)
  from do_sparse_loop_exit [OF loop]
  have ex: "\<And>c. ex = Returned c \<Longrightarrow> c = 1 \<or> c = 2"
    "\<And>st en. ex = Broke st en \<Longrightarrow> st = - 1 \<or> en = - 1" by auto
  show ?thesis
  proof (cases ex)
    case (Returned c)
    with assms True loop ex(1) [OF Returned] show ?thesis by (auto simp: do_sparse_def)
  next
    case (Broke st en)
    with assms True loop ex(2) [OF Broke] show ?thesis by (auto simp: do_sparse_def)
  qed
qed

























section \<open>Short copies\<close>

text \<open>
  Claim C4 does not hold of the code. For the extent \<open>(0, 8)\<close> of an eight-byte file,
  with a \<^verbatim>\<open>copy_file_range\<close> that transfers three bytes, \<^verbatim>\<open>do_sparse\<close> returns 0 with
  the header \<open>0 8\<close> and three payload bytes in the output: \<^verbatim>\<open>do_sparse_copy_data\<close> makes
  one call and \<^verbatim>\<open>do_sparse_data\<close> compares its result with -1 only.
\<close>

theorem short_copy_accepted:
  "do_sparse ((sparse_file (map Some ''ABCDEFGH''))\<lparr>sps_copy_script := [CopyShort 3]\<rparr>)
     empty_output
   = Some (0, empty_output\<lparr>snk_pos := 7,
                snk_file := map Some (''0 8'' @ [CHR 0x0A] @ ''ABC'')\<rparr>)"
  by (simp add: encoder_defs)

end
